theory Spec2Isabelle
  imports Main
begin

section \<open>Strings\<close>

text \<open>
  A JavaScript string is modelled as a \<open>char list\<close>; a \<open>char\<close> is read as the code unit
  of the same number (U+0000 to U+00FF). On that range the white space of the regular
  expression class \<^verbatim>\<open>\s\<close> and of \<^verbatim>\<open>String.prototype.trim\<close> is TAB, LF, VT, FF, CR, SPACE
  and NBSP, and \<^verbatim>\<open>toLowerCase\<close> moves A-Z and the Latin-1 capitals (U+00C0 to U+00DE,
  without the multiplication sign U+00D7) up by 32.
\<close>

definition is_space :: "char \<Rightarrow> bool" where
  "is_space c = (let n = (of_char c :: nat) in (9 \<le> n \<and> n \<le> 13) \<or> n = 32 \<or> n = 160)"

definition lower_char :: "char \<Rightarrow> char" where
  "lower_char c = (let n = (of_char c :: nat) in
     if (65 \<le> n \<and> n \<le> 90) \<or> (192 \<le> n \<and> n \<le> 222 \<and> n \<noteq> 215)
     then char_of (n + 32) else c)"

definition toLowerCase :: "string \<Rightarrow> string" where
  "toLowerCase s = map lower_char s"

definition trim :: "string \<Rightarrow> string" where
  "trim s = rev (dropWhile is_space (rev (dropWhile is_space s)))"

text \<open>
  \<^verbatim>\<open>const emailRegex = /^[^\s@]+@[^\s@]+\.[^\s@]+$/\<close> of \<^verbatim>\<open>vanilla-claude/app/actions/signup.ts\<close>.
  \<open>no_space_at\<close> is the class \<^verbatim>\<open>[^\s@]\<close>. The first \<^verbatim>\<open>[^\s@]+\<close> must stop at the first
  character outside the class, which has to be the \<^verbatim>\<open>@\<close>; the rest has to lie in the class
  and to hold a dot that is neither its first nor its last character.
\<close>

definition no_space_at :: "char \<Rightarrow> bool" where
  "no_space_at c = (\<not> is_space c \<and> c \<noteq> CHR ''@'')"

definition emailRegex_test :: "string \<Rightarrow> bool" where
  "emailRegex_test s =
     (takeWhile no_space_at s \<noteq> [] \<and>
      (case dropWhile no_space_at s of
         [] \<Rightarrow> False
       | c # d \<Rightarrow> c = CHR ''@'' \<and> list_all no_space_at d \<and> CHR ''.'' \<in> set (butlast (tl d))))"

section \<open>Persistence layer\<close>

text \<open>
  The table of the schema (\<^verbatim>\<open>model Waitlist\<close>): \<^verbatim>\<open>id\<close>, \<^verbatim>\<open>email String @unique\<close>,
  \<^verbatim>\<open>source String?\<close>, \<^verbatim>\<open>referrer String?\<close>, \<^verbatim>\<open>createdAt DateTime @default(now())\<close>.
  Time is the number of milliseconds since the epoch.
\<close>

record waitlist_row =
  row_id :: nat
  email :: string
  source :: "string option"
  referrer :: "string option"
  createdAt :: int

record create_data =
  data_email :: string
  data_source :: "string option"
  data_referrer :: "string option"

text \<open>What a rejected Prisma call throws: a known request error with its code, or anything else.\<close>

datatype thrown = PrismaClientKnownRequestError string | OtherError

text \<open>
  The store: its rows in insertion order, the failure it answers every call with while it is
  unreachable (\<open>None\<close> when it is reachable), and the number of create calls it has received.
\<close>

record db =
  rows :: "waitlist_row list"
  fault :: "thrown option"
  writes :: nat

text \<open>
  Modelled from the spec: the persistence layer is the Prisma client over the table above,
  which is not part of the sources. Its insert enforces the uniqueness constraint on
  \<^verbatim>\<open>email\<close> as one atomic check-and-insert and reports a violation as the known request
  error P2002; \<^verbatim>\<open>createdAt\<close> is set to the current time by the persistence layer.
\<close>

definition prisma_create :: "int \<Rightarrow> db \<Rightarrow> create_data \<Rightarrow> (thrown + waitlist_row) \<times> db" where
  "prisma_create now d c =
     (let d' = d\<lparr>writes := writes d + 1\<rparr> in
      case fault d of
        Some t \<Rightarrow> (Inl t, d')
      | None \<Rightarrow>
          if data_email c \<in> set (map email (rows d))
          then (Inl (PrismaClientKnownRequestError ''P2002''), d')
          else (let r = \<lparr>row_id = length (rows d), email = data_email c, source = data_source c,
                          referrer = data_referrer c, createdAt = now\<rparr>
                in (Inr r, d'\<lparr>rows := rows d @ [r]\<rparr>)))"

definition prisma_count :: "db \<Rightarrow> thrown + nat" where
  "prisma_count d = (case fault d of Some t \<Rightarrow> Inl t | None \<Rightarrow> Inr (length (rows d)))"

definition prisma_findUnique :: "db \<Rightarrow> string \<Rightarrow> thrown + waitlist_row option" where
  "prisma_findUnique d e =
     (case fault d of Some t \<Rightarrow> Inl t | None \<Rightarrow> Inr (find (\<lambda>r. email r = e) (rows d)))"

section \<open>Signup Writer\<close>

text \<open>
  \<^verbatim>\<open>formData.get\<close> answers \<^verbatim>\<open>null\<close> for a missing field, a string, or a \<^verbatim>\<open>File\<close>.
  The attribution fields are cast to \<^verbatim>\<open>string | null\<close>.
\<close>

datatype form_entry = Absent | Text string | File

record form_data =
  email_field :: form_entry
  source_field :: "string option"
  referrer_field :: "string option"

datatype SignupResult = Success string | Failure string

text \<open>\<^verbatim>\<open>x || null\<close> on a \<^verbatim>\<open>string | null\<close>: the empty string is falsy.\<close>

definition or_null :: "string option \<Rightarrow> string option" where
  "or_null x = (case x of None \<Rightarrow> None | Some s \<Rightarrow> if s = [] then None else Some s)"

text \<open>The test of the catch block: the thrown value carries the code P2002.\<close>

definition is_P2002 :: "thrown \<Rightarrow> bool" where
  "is_P2002 t = (case t of PrismaClientKnownRequestError c \<Rightarrow> c = ''P2002'' | OtherError \<Rightarrow> False)"

text \<open>\<^verbatim>\<open>signup\<close> of \<^verbatim>\<open>vanilla-claude/app/actions/signup.ts\<close>, with the clock and the store explicit.\<close>

definition signup :: "int \<Rightarrow> db \<Rightarrow> form_data \<Rightarrow> SignupResult \<times> db" where
  "signup now d fd =
     (case email_field fd of
        Absent \<Rightarrow> (Failure ''Email is required'', d)
      | File \<Rightarrow> (Failure ''Email is required'', d)
      | Text e \<Rightarrow>
          if e = [] then (Failure ''Email is required'', d)
          else if \<not> emailRegex_test e then (Failure ''Please enter a valid email address'', d)
          else
            (let sanitizedEmail = trim (toLowerCase e) in
             case prisma_create now d
                    \<lparr>data_email = sanitizedEmail,
                     data_source = or_null (source_field fd),
                     data_referrer = or_null (referrer_field fd)\<rparr> of
               (Inr r, d') \<Rightarrow> (Success ''You're on the list!'', d')
             | (Inl err, d') \<Rightarrow>
                 if is_P2002 err then (Failure ''You're already on the list!'', d')
                 else (Failure ''Something went wrong. Please try again.'', d')))"

text \<open>
  \<^verbatim>\<open>submitWaitlist\<close> of \<^verbatim>\<open>skills-claude/launchlist/src/app/actions.ts\<close>. The schema
  \<^verbatim>\<open>z.string().email(...)\<close> belongs to the zod package; its \<^verbatim>\<open>safeParse\<close> is a parameter that
  answers the message of the first issue or the parsed string.
\<close>

definition submitWaitlist ::
  "(form_entry \<Rightarrow> string + string) \<Rightarrow> int \<Rightarrow> db \<Rightarrow> form_data \<Rightarrow> SignupResult \<times> db" where
  "submitWaitlist safeParse now d fd =
     (case safeParse (email_field fd) of
        Inl message \<Rightarrow> (Failure message, d)
      | Inr parsed \<Rightarrow>
          (case prisma_create now d
                  \<lparr>data_email = trim (toLowerCase parsed),
                   data_source = or_null (source_field fd),
                   data_referrer = or_null (referrer_field fd)\<rparr> of
             (Inr r, d') \<Rightarrow> (Success ''You're on the list! We'll be in touch soon.'', d')
           | (Inl err, d') \<Rightarrow>
               if is_P2002 err then (Failure ''You're already on the waitlist!'', d')
               else (Failure ''Something went wrong. Please try again.'', d')))"

text \<open>\<^verbatim>\<open>getWaitlistCount\<close> of the same file: the catch block answers 0.\<close>

definition getWaitlistCount :: "db \<Rightarrow> thrown + nat" where
  "getWaitlistCount d = (case prisma_count d of Inr n \<Rightarrow> Inr n | Inl t \<Rightarrow> Inr 0)"

text \<open>The route handler \<^verbatim>\<open>GET\<close> of \<^verbatim>\<open>/api/count\<close>: a JSON response with the field \<^verbatim>\<open>count\<close>.\<close>

record count_response =
  status :: nat
  count :: nat

definition GET :: "db \<Rightarrow> thrown + count_response" where
  "GET d = (case prisma_count d of
              Inr n \<Rightarrow> Inr \<lparr>status = 200, count = n\<rparr>
            | Inl t \<Rightarrow> Inr \<lparr>status = 200, count = 0\<rparr>)"

text \<open>
  \<^verbatim>\<open>submitWaitlist\<close> as the guide of the App Router skill writes it (section 4, Server
  Action Definition): \<^verbatim>\<open>findUnique\<close>, then \<^verbatim>\<open>create\<close>, and one catch block without a test
  of the code. The function suspends at each \<^verbatim>\<open>await\<close>, so a call is a task that is at its
  first await, at its second one, or finished; \<open>submitWaitlist_step\<close> runs a task up to its
  next await.
\<close>

datatype task = AwaitFindUnique string "string option" | AwaitCreate string "string option"
  | Finished SignupResult

definition submitWaitlist_begin :: "(form_entry \<Rightarrow> string + string) \<Rightarrow> form_data \<Rightarrow> task" where
  "submitWaitlist_begin safeParse fd =
     (case safeParse (email_field fd) of
        Inl message \<Rightarrow> Finished (Failure message)
      | Inr parsed \<Rightarrow> AwaitFindUnique parsed (or_null (source_field fd)))"

definition submitWaitlist_step :: "int \<Rightarrow> db \<Rightarrow> task \<Rightarrow> task \<times> db" where
  "submitWaitlist_step now d t =
     (case t of
        AwaitFindUnique e src \<Rightarrow>
          (case prisma_findUnique d e of
             Inl err \<Rightarrow> (Finished (Failure ''Something went wrong. Please try again.''), d)
           | Inr (Some existing) \<Rightarrow> (Finished (Failure ''You're already on the waitlist!''), d)
           | Inr None \<Rightarrow> (AwaitCreate e src, d))
      | AwaitCreate e src \<Rightarrow>
          (case prisma_create now d \<lparr>data_email = e, data_source = src, data_referrer = None\<rparr> of
             (Inr r, d') \<Rightarrow> (Finished (Success ''Successfully joined!''), d')
           | (Inl err, d') \<Rightarrow> (Finished (Failure ''Something went wrong. Please try again.''), d'))
      | Finished r \<Rightarrow> (Finished r, d))"

text \<open>
  Requests in flight: the schedule names, await by await, the task that the event loop
  resumes next.
\<close>

fun run_schedule :: "int \<Rightarrow> nat list \<Rightarrow> task list \<times> db \<Rightarrow> task list \<times> db" where
  "run_schedule now [] (ts, d) = (ts, d)"
| "run_schedule now (i # sched) (ts, d) =
     (if i < length ts
      then (case submitWaitlist_step now d (ts ! i) of (t', d') \<Rightarrow> run_schedule now sched (ts[i := t'], d'))
      else run_schedule now sched (ts, d))"

text \<open>Calls of \<^verbatim>\<open>signup\<close> one after the other: each has one await, the insert.\<close>

fun signup_all :: "int \<Rightarrow> db \<Rightarrow> form_data list \<Rightarrow> SignupResult list \<times> db" where
  "signup_all now d [] = ([], d)"
| "signup_all now d (fd # fds) =
     (case signup now d fd of (r, d') \<Rightarrow>
        (case signup_all now d' fds of (rs, d'') \<Rightarrow> (r # rs, d'')))"

section \<open>Analytics Aggregator\<close>

definition day_ms :: int where
  "day_ms = 24 * 60 * 60 * 1000"

text \<open>
  \<^verbatim>\<open>createdAt.toISOString().split('T')[0]\<close> is the UTC calendar date of the time stamp. The
  date is modelled by the number of its day since the epoch, which orders the days as the
  dates are ordered.
\<close>

definition iso_date :: "int \<Rightarrow> int" where
  "iso_date t = t div day_ms"

text \<open>
  Modelled from the spec: the read operations of the persistence layer (exact count, count
  with a time-range filter, group-by-count over \<^verbatim>\<open>source\<close> ordered by descending count with
  a limit, ordered listing by \<^verbatim>\<open>createdAt\<close>), as the queries of the sources ask for them.
\<close>

definition prisma_count_since :: "db \<Rightarrow> int \<Rightarrow> thrown + nat" where
  "prisma_count_since d since =
     (case fault d of
        Some t \<Rightarrow> Inl t
      | None \<Rightarrow> Inr (length (filter (\<lambda>r. since \<le> createdAt r) (rows d))))"

definition prisma_findMany_since :: "db \<Rightarrow> int \<Rightarrow> thrown + int list" where
  "prisma_findMany_since d since =
     (case fault d of
        Some t \<Rightarrow> Inl t
      | None \<Rightarrow> Inr (sort (map createdAt (filter (\<lambda>r. since \<le> createdAt r) (rows d)))))"

definition source_groups :: "waitlist_row list \<Rightarrow> (string option \<times> nat) list" where
  "source_groups rs =
     map (\<lambda>s. (s, length (filter (\<lambda>r. source r = s) rs))) (remdups (map source rs))"

definition prisma_groupBy_source :: "db \<Rightarrow> nat option \<Rightarrow> thrown + (string option \<times> nat) list" where
  "prisma_groupBy_source d take_n =
     (case fault d of
        Some t \<Rightarrow> Inl t
      | None \<Rightarrow>
          (let ordered = sort_key (\<lambda>g. - int (snd g)) (source_groups (rows d))
           in Inr (case take_n of None \<Rightarrow> ordered | Some n \<Rightarrow> take n ordered)))"

text \<open>\<^verbatim>\<open>acc[date] = (acc[date] || 0) + 1\<close> on an object whose keys keep their insertion order.\<close>

fun bump :: "(int \<times> nat) list \<Rightarrow> int \<Rightarrow> (int \<times> nat) list" where
  "bump [] k = [(k, 1)]"
| "bump ((k', c) # acc) k = (if k' = k then (k', c + 1) # acc else (k', c) # bump acc k)"

text \<open>\<^verbatim>\<open>getSignupsOverTime\<close> of \<^verbatim>\<open>lib/analytics.ts\<close> (admin-dashboard skill).\<close>

definition getSignupsOverTime :: "int \<Rightarrow> db \<Rightarrow> int \<Rightarrow> thrown + (int \<times> nat) list" where
  "getSignupsOverTime now d days =
     (case prisma_findMany_since d (now - days * day_ms) of
        Inl t \<Rightarrow> Inl t
      | Inr signups \<Rightarrow> Inr (foldl (\<lambda>acc signup. bump acc (iso_date signup)) [] signups))"

record DashboardStats =
  total :: nat
  today :: nat
  thisWeek :: nat
  sources :: "(string option \<times> nat) list"
  timeline :: "(int \<times> nat) list"

text \<open>
  \<^verbatim>\<open>getDashboardStats\<close>: five queries under \<^verbatim>\<open>Promise.all\<close>, which rejects as soon as one of
  them does. \<open>midnight\<close> is the time stamp that \<^verbatim>\<open>new Date().setHours(0, 0, 0, 0)\<close> answers: the
  start of the current day in the time zone of the server.
\<close>

definition getDashboardStats :: "int \<Rightarrow> int \<Rightarrow> db \<Rightarrow> thrown + DashboardStats" where
  "getDashboardStats now midnight d =
     (case prisma_count d of Inl t \<Rightarrow> Inl t | Inr n \<Rightarrow>
      case prisma_count_since d midnight of Inl t \<Rightarrow> Inl t | Inr td \<Rightarrow>
      case prisma_count_since d (now - 7 * day_ms) of Inl t \<Rightarrow> Inl t | Inr wk \<Rightarrow>
      case prisma_groupBy_source d (Some 10) of Inl t \<Rightarrow> Inl t | Inr src \<Rightarrow>
      case getSignupsOverTime now d 30 of Inl t \<Rightarrow> Inl t | Inr series \<Rightarrow>
        Inr \<lparr>total = n, today = td, thisWeek = wk, sources = src, timeline = series\<rparr>)"

text \<open>\<^verbatim>\<open>getSignupsBySource\<close> of the Prisma skill: the same grouping without a limit.\<close>

definition source_label :: "string option \<Rightarrow> string" where
  "source_label s = (case s of None \<Rightarrow> ''Direct'' | Some x \<Rightarrow> if x = [] then ''Direct'' else x)"

definition getSignupsBySource :: "db \<Rightarrow> thrown + (string \<times> nat) list" where
  "getSignupsBySource d =
     (case prisma_groupBy_source d None of
        Inl t \<Rightarrow> Inl t
      | Inr stats \<Rightarrow> Inr (map (\<lambda>item. (source_label (fst item), snd item)) stats))"

text \<open>\<^verbatim>\<open>referralData\<close> of the dashboard page: \<^verbatim>\<open>s.source || 'Direct'\<close> with the count.\<close>

definition referralData :: "DashboardStats \<Rightarrow> (string \<times> nat) list" where
  "referralData stats = map (\<lambda>s. (source_label (fst s), snd s)) (sources stats)"

section \<open>Admin Access Guard\<close>

text \<open>
  Modelled from the spec: the limiter \<^verbatim>\<open>Ratelimit.slidingWindow(5, '15 m')\<close> belongs to a
  package that is not part of the sources. It keeps, for each identifier, the attempts it
  admitted; \<^verbatim>\<open>limit\<close> rejects when the number of them within the trailing window of 15
  minutes meets the threshold of 5, and admits and records the attempt otherwise.
\<close>

definition window_ms :: int where
  "window_ms = 15 * 60 * 1000"

definition threshold :: nat where
  "threshold = 5"

type_synonym limiter = "(string \<times> int) list"

definition used :: "limiter \<Rightarrow> string \<Rightarrow> int \<Rightarrow> nat" where
  "used lim ident now = length (filter (\<lambda>a. fst a = ident \<and> now - window_ms < snd a) lim)"

definition limit :: "limiter \<Rightarrow> string \<Rightarrow> int \<Rightarrow> bool \<times> limiter" where
  "limit lim ident now =
     (if threshold \<le> used lim ident now then (False, lim) else (True, lim @ [(ident, now)]))"

text \<open>
  \<^verbatim>\<open>login\<close> of \<^verbatim>\<open>app/actions/auth.ts\<close>: the rate limit of section 3 of the admin-dashboard
  skill, continued by the authentication of section 1 (option B). The environment holds
  the configured credentials; a missing variable is \<^verbatim>\<open>undefined\<close> and equals no form value.
\<close>

record env =
  ADMIN_USERNAME :: "string option"
  ADMIN_PASSWORD :: "string option"

record SessionData =
  isLoggedIn :: bool
  username :: "string option"

record login_form =
  username_field :: "string option"
  password_field :: "string option"

datatype LoginResult = Redirect string | Error string

definition strict_eq :: "string option \<Rightarrow> string option \<Rightarrow> bool" where
  "strict_eq submitted configured =
     (case (submitted, configured) of (Some a, Some b) \<Rightarrow> a = b | _ \<Rightarrow> False)"

definition client_ip :: "string option \<Rightarrow> string" where
  "client_ip forwarded =
     (case forwarded of None \<Rightarrow> ''unknown'' | Some h \<Rightarrow> if h = [] then ''unknown'' else h)"

definition login ::
  "env \<Rightarrow> limiter \<times> SessionData \<Rightarrow> string option \<Rightarrow> login_form \<Rightarrow> int
     \<Rightarrow> LoginResult \<times> limiter \<times> SessionData" where
  "login ev st forwarded fd now =
     (let ip = client_ip forwarded in
      case limit (fst st) ip now of
        (False, lim') \<Rightarrow> (Error ''Too many attempts. Try again in 15 minutes.'', lim', snd st)
      | (True, lim') \<Rightarrow>
          if strict_eq (username_field fd) (ADMIN_USERNAME ev) \<and>
             strict_eq (password_field fd) (ADMIN_PASSWORD ev)
          then (Redirect ''/admin/dashboard'', lim',
                \<lparr>isLoggedIn = True, username = username_field fd\<rparr>)
          else (Error ''Invalid credentials'', lim', snd st))"

text \<open>A history of login calls: forwarded address, form and time of each, in order.\<close>

fun login_all ::
  "env \<Rightarrow> limiter \<times> SessionData \<Rightarrow> (string option \<times> login_form \<times> int) list
     \<Rightarrow> LoginResult list \<times> limiter \<times> SessionData" where
  "login_all ev st [] = ([], st)"
| "login_all ev st ((fw, fd, t) # calls) =
     (case login ev st fw fd t of (r, st') \<Rightarrow>
        (case login_all ev st' calls of (rs, st'') \<Rightarrow> (r # rs, st'')))"

section \<open>Properties of the strings\<close>

lemma no_space_at_dot: "no_space_at (CHR ''.'')"
  by (simp add: no_space_at_def is_space_def)

lemma not_no_space_at_at: "\<not> no_space_at (CHR ''@'')"
  by (simp add: no_space_at_def)

text \<open>
  The test is the regular expression: a string passes exactly when it is a non-empty run of
  the class, the \<^verbatim>\<open>@\<close>, a non-empty run of the class, a dot and a non-empty run of the class.
\<close>

lemma emailRegex_test_iff:
  "emailRegex_test s \<longleftrightarrow>
     (\<exists>a b c. s = a @ CHR ''@'' # b @ CHR ''.'' # c \<and> a \<noteq> [] \<and> b \<noteq> [] \<and> c \<noteq> [] \<and>
        list_all no_space_at a \<and> list_all no_space_at b \<and> list_all no_space_at c)"
proof
  assume "emailRegex_test s"
  then obtain d where t: "takeWhile no_space_at s \<noteq> []"
    and d: "dropWhile no_space_at s = CHR ''@'' # d" "list_all no_space_at d"
      "CHR ''.'' \<in> set (butlast (tl d))"
    by (auto simp: emailRegex_test_def split: list.splits)
  from d(3) obtain m1 m2 where m: "butlast (tl d) = m1 @ CHR ''.'' # m2"
    by (meson split_list)
  then have "tl d \<noteq> []" by auto
  then have tl: "tl d = (m1 @ CHR ''.'' # m2) @ [last (tl d)]"
    using m by (metis append_butlast_last_id)
  have "d \<noteq> []" using \<open>tl d \<noteq> []\<close> by auto
  then have dd: "d = (hd d # m1) @ CHR ''.'' # (m2 @ [last (tl d)])"
    using tl by (metis append_Cons append_assoc list.collapse)
  have s: "s = takeWhile no_space_at s @ CHR ''@'' # d"
    using d(1) by (metis takeWhile_dropWhile_id)
  have a: "list_all no_space_at (takeWhile no_space_at s)"
    by (simp add: list_all_iff) (meson set_takeWhileD)
  have b: "list_all no_space_at (hd d # m1)" "list_all no_space_at (m2 @ [last (tl d)])"
    using d(2) by (subst (asm) dd, simp)+
  show "\<exists>a b c. s = a @ CHR ''@'' # b @ CHR ''.'' # c \<and> a \<noteq> [] \<and> b \<noteq> [] \<and> c \<noteq> [] \<and>
        list_all no_space_at a \<and> list_all no_space_at b \<and> list_all no_space_at c"
    apply (rule exI[of _ "takeWhile no_space_at s"])
    apply (rule exI[of _ "hd d # m1"])
    apply (rule exI[of _ "m2 @ [last (tl d)]"])
    using s dd t a b by auto
next
  assume "\<exists>a b c. s = a @ CHR ''@'' # b @ CHR ''.'' # c \<and> a \<noteq> [] \<and> b \<noteq> [] \<and> c \<noteq> [] \<and>
        list_all no_space_at a \<and> list_all no_space_at b \<and> list_all no_space_at c"
  then obtain a b c where s: "s = a @ CHR ''@'' # b @ CHR ''.'' # c"
    and ne: "a \<noteq> []" "b \<noteq> []" "c \<noteq> []"
    and cl: "list_all no_space_at a" "list_all no_space_at b" "list_all no_space_at c"
    by blast
  have all: "\<forall>x \<in> set a. no_space_at x" using cl(1) by (simp add: list_all_iff)
  have t: "takeWhile no_space_at s = a"
    unfolding s using all not_no_space_at_at by (simp add: takeWhile_append2)
  have dr: "dropWhile no_space_at s = CHR ''@'' # b @ CHR ''.'' # c"
    unfolding s using all not_no_space_at_at by (simp add: dropWhile_append2)
  obtain x b' where b: "b = x # b'" using ne(2) by (cases b) auto
  obtain c' y where c: "c = c' @ [y]" using ne(3) by (cases c rule: rev_cases) auto
  have "butlast (tl (b @ CHR ''.'' # c)) = b' @ CHR ''.'' # c'"
    by (simp add: b c butlast_append)
  then have dot: "CHR ''.'' \<in> set (butlast (tl (b @ CHR ''.'' # c)))" by simp
  have "list_all no_space_at (b @ CHR ''.'' # c)"
    using cl no_space_at_dot by simp
  then show "emailRegex_test s"
    unfolding emailRegex_test_def t dr using ne(1) dot by simp
qed

lemma emailRegex_nonempty: "emailRegex_test e \<Longrightarrow> e \<noteq> []"
  by (auto simp: emailRegex_test_def)

lemma takeWhile_dropWhile_all:
  "dropWhile P s = c # d \<Longrightarrow> set s = set (takeWhile P s) \<union> insert c (set d)"
  by (metis list.simps(15) set_append takeWhile_dropWhile_id)

lemma emailRegex_no_space: 
  assumes "emailRegex_test e" shows "\<forall>c \<in> set e. \<not> is_space c"
proof -
  from assms obtain c d where cd: "dropWhile no_space_at e = c # d" "c = CHR ''@''" "list_all no_space_at d"
    by (auto simp: emailRegex_test_def split: list.splits)
  have 1: "\<forall>x \<in> set (takeWhile no_space_at e). \<not> is_space x"
    using set_takeWhileD[of _ no_space_at e] by (auto simp: no_space_at_def)
  have 2: "\<forall>x \<in> set d. \<not> is_space x" using cd(3) by (auto simp: list_all_iff no_space_at_def)
  have 3: "\<not> is_space c" using cd(2) by (simp add: is_space_def)
  show ?thesis using takeWhile_dropWhile_all[OF cd(1)] 1 2 3 by auto
qed

lemma lower_char_space: "is_space (lower_char c) = is_space c"
  by (auto simp: lower_char_def is_space_def Let_def)

lemma dropWhile_none: "\<forall>c \<in> set s. \<not> P c \<Longrightarrow> dropWhile P s = s"
  by (cases s) auto

lemma trim_no_space: "\<forall>c \<in> set s. \<not> is_space c \<Longrightarrow> trim s = s"
  by (simp add: trim_def dropWhile_none)

lemma sanitize_valid: "emailRegex_test e \<Longrightarrow> trim (toLowerCase e) = toLowerCase e"
  by (rule trim_no_space) (use emailRegex_no_space in \<open>auto simp: toLowerCase_def lower_char_space\<close>)

lemma of_char_lower_char:
  "(of_char (lower_char c) :: nat) =
     (if (65 \<le> (of_char c :: nat) \<and> (of_char c :: nat) \<le> 90) \<or>
         (192 \<le> (of_char c :: nat) \<and> (of_char c :: nat) \<le> 222 \<and> (of_char c :: nat) \<noteq> 215)
      then of_char c + 32 else of_char c)"
  by (auto simp: lower_char_def Let_def)

lemma char_eq_iff_nat: "c = d \<longleftrightarrow> (of_char c :: nat) = of_char d"
  by simp

lemma lower_char_at: "lower_char c = CHR ''@'' \<longleftrightarrow> c = CHR ''@''"
  unfolding char_eq_iff_nat[of _ "CHR ''@''"] of_char_lower_char by (auto split: if_splits)

lemma lower_char_dot: "lower_char c = CHR ''.'' \<longleftrightarrow> c = CHR ''.''"
  unfolding char_eq_iff_nat[of _ "CHR ''.''"] of_char_lower_char by (auto split: if_splits)

lemma no_space_at_lower: "no_space_at (lower_char c) = no_space_at c"
  by (simp add: no_space_at_def lower_char_space lower_char_at)

lemma no_space_at_lower_comp: "no_space_at \<circ> lower_char = no_space_at"
  by (rule ext) (simp add: no_space_at_lower)

lemma emailRegex_lower: 
  assumes "emailRegex_test e" shows "emailRegex_test (toLowerCase e)"
proof -
  from assms obtain d where d: "dropWhile no_space_at e = CHR ''@'' # d" "list_all no_space_at d"
     "CHR ''.'' \<in> set (butlast (tl d))" and t: "takeWhile no_space_at e \<noteq> []"
    by (auto simp: emailRegex_test_def split: list.splits)
  have 1: "takeWhile no_space_at (map lower_char e) = map lower_char (takeWhile no_space_at e)"
    by (simp add: takeWhile_map no_space_at_lower_comp)
  have 2: "dropWhile no_space_at (map lower_char e) = map lower_char (dropWhile no_space_at e)"
    by (simp add: dropWhile_map no_space_at_lower_comp)
  have 3: "list_all no_space_at (map lower_char d)"
    using d(2) by (simp add: list_all_iff no_space_at_lower)
  have 4: "CHR ''.'' \<in> set (butlast (tl (map lower_char d)))"
  proof -
    have "butlast (tl (map lower_char d)) = map lower_char (butlast (tl d))"
      by (simp add: map_butlast map_tl)
    moreover have "lower_char (CHR ''.'') = CHR ''.''" by (simp add: lower_char_dot)
    ultimately show ?thesis using d(3) by (metis image_eqI list.set_map)
  qed
  have 5: "lower_char (CHR ''@'') = CHR ''@''" by (simp add: lower_char_at)
  show ?thesis
    unfolding emailRegex_test_def toLowerCase_def 1 2 d(1)
    using t 3 4 5 by simp
qed

section \<open>Properties of the Signup Writer\<close>

lemma signup_valid_eq:
  assumes "email_field fd = Text e" "emailRegex_test e"
  shows "signup now d fd =
     (case prisma_create now d
             \<lparr>data_email = trim (toLowerCase e),
              data_source = or_null (source_field fd),
              data_referrer = or_null (referrer_field fd)\<rparr> of
        (Inr r, d') \<Rightarrow> (Success ''You're on the list!'', d')
      | (Inl err, d') \<Rightarrow>
          if is_P2002 err then (Failure ''You're already on the list!'', d')
          else (Failure ''Something went wrong. Please try again.'', d'))"
  using assms emailRegex_nonempty[OF assms(2)] by (simp add: signup_def)

lemma prisma_create_new:
  assumes "fault d = None" "data_email c \<notin> set (map email (rows d))"
  shows "prisma_create now d c =
     (Inr \<lparr>row_id = length (rows d), email = data_email c, source = data_source c,
           referrer = data_referrer c, createdAt = now\<rparr>,
      d\<lparr>writes := writes d + 1,
        rows := rows d @ [\<lparr>row_id = length (rows d), email = data_email c, source = data_source c,
           referrer = data_referrer c, createdAt = now\<rparr>]\<rparr>)"
  using assms by (simp add: prisma_create_def Let_def)

lemma prisma_create_dup:
  assumes "fault d = None" "data_email c \<in> set (map email (rows d))"
  shows "prisma_create now d c = (Inl (PrismaClientKnownRequestError ''P2002''), d\<lparr>writes := writes d + 1\<rparr>)"
  using assms by (simp add: prisma_create_def Let_def)

lemma prisma_create_fault:
  assumes "fault d = Some t"
  shows "prisma_create now d c = (Inl t, d\<lparr>writes := writes d + 1\<rparr>)"
  using assms by (simp add: prisma_create_def Let_def)

lemma signup_new:
  assumes "email_field fd = Text e" "emailRegex_test e" "fault d = None"
    "trim (toLowerCase e) \<notin> set (map email (rows d))"
  shows "signup now d fd =
          (Success ''You're on the list!'',
           d\<lparr>writes := writes d + 1,
             rows := rows d @ [\<lparr>row_id = length (rows d), email = trim (toLowerCase e),
                                source = or_null (source_field fd),
                                referrer = or_null (referrer_field fd), createdAt = now\<rparr>]\<rparr>)"
  using assms by (simp add: signup_valid_eq prisma_create_new)

lemma signup_dup:
  assumes "email_field fd = Text e" "emailRegex_test e" "fault d = None"
    "trim (toLowerCase e) \<in> set (map email (rows d))"
  shows "signup now d fd = (Failure ''You're already on the list!'', d\<lparr>writes := writes d + 1\<rparr>)"
  using assms by (simp add: signup_valid_eq prisma_create_dup is_P2002_def)

lemma submitWaitlist_new:
  assumes "safeParse (email_field fd) = Inr p" "fault d = None"
    "trim (toLowerCase p) \<notin> set (map email (rows d))"
  shows "submitWaitlist safeParse now d fd =
          (Success ''You're on the list! We'll be in touch soon.'',
           d\<lparr>writes := writes d + 1,
             rows := rows d @ [\<lparr>row_id = length (rows d), email = trim (toLowerCase p),
                                source = or_null (source_field fd),
                                referrer = or_null (referrer_field fd), createdAt = now\<rparr>]\<rparr>)"
  using assms by (simp add: submitWaitlist_def prisma_create_new)

lemma submitWaitlist_dup:
  assumes "safeParse (email_field fd) = Inr p" "fault d = None"
    "trim (toLowerCase p) \<in> set (map email (rows d))"
  shows "submitWaitlist safeParse now d fd =
          (Failure ''You're already on the waitlist!'', d\<lparr>writes := writes d + 1\<rparr>)"
  using assms by (simp add: submitWaitlist_def prisma_create_dup is_P2002_def)

lemma filter_absent: "x \<notin> set (map f xs) \<Longrightarrow> filter (\<lambda>r. f r = x) xs = []"
  by (auto simp: filter_empty_conv)

text \<open>
  C1, as stated, fails: the syntax rule is applied to the string as it was submitted, so
  \<^verbatim>\<open>"Test@Example.com "\<close> with its trailing space is refused and nothing is stored.
\<close>

theorem signup_normalizes_counterexample:
  "signup 0 \<lparr>rows = [], fault = None, writes = 0\<rparr>
     \<lparr>email_field = Text ''Test@Example.com '', source_field = None, referrer_field = None\<rparr>
    = (Failure ''Please enter a valid email address'', \<lparr>rows = [], fault = None, writes = 0\<rparr>)"
  by code_simp

text \<open>
  C1, amended. For every submitted email string that passes the syntax validation (applied
  to the string as submitted), the Signup Writer lower-cases and trims it before the
  uniqueness check and for the persisted value: a new normalized value is stored and the
  total grows by 1, a normalized value that is already stored is refused as a duplicate.
  Both writers do so (\<^verbatim>\<open>signup\<close>, and \<^verbatim>\<open>submitWaitlist\<close> for whatever its schema accepts).
\<close>

theorem signup_normalizes_validated:
  "(email_field fd = Text e \<and> emailRegex_test e \<and> fault d = None \<and>
      trim (toLowerCase e) \<notin> set (map email (rows d))
     \<longrightarrow> signup now d fd =
          (Success ''You're on the list!'',
           d\<lparr>writes := writes d + 1,
             rows := rows d @ [\<lparr>row_id = length (rows d), email = trim (toLowerCase e),
                                source = or_null (source_field fd),
                                referrer = or_null (referrer_field fd), createdAt = now\<rparr>]\<rparr>) \<and>
         getWaitlistCount d = Inr (length (rows d)) \<and>
         getWaitlistCount (snd (signup now d fd)) = Inr (length (rows d) + 1)) \<and>
   (email_field fd = Text e \<and> emailRegex_test e \<and> fault d = None \<and>
      trim (toLowerCase e) \<in> set (map email (rows d))
     \<longrightarrow> signup now d fd = (Failure ''You're already on the list!'', d\<lparr>writes := writes d + 1\<rparr>)) \<and>
   (safeParse (email_field fd) = Inr p \<and> fault d = None \<and>
      trim (toLowerCase p) \<notin> set (map email (rows d))
     \<longrightarrow> submitWaitlist safeParse now d fd =
          (Success ''You're on the list! We'll be in touch soon.'',
           d\<lparr>writes := writes d + 1,
             rows := rows d @ [\<lparr>row_id = length (rows d), email = trim (toLowerCase p),
                                source = or_null (source_field fd),
                                referrer = or_null (referrer_field fd), createdAt = now\<rparr>]\<rparr>)) \<and>
   (safeParse (email_field fd) = Inr p \<and> fault d = None \<and>
      trim (toLowerCase p) \<in> set (map email (rows d))
     \<longrightarrow> submitWaitlist safeParse now d fd =
          (Failure ''You're already on the waitlist!'', d\<lparr>writes := writes d + 1\<rparr>))"
proof (intro conjI impI)
  assume a: "email_field fd = Text e \<and> emailRegex_test e \<and> fault d = None \<and>
      trim (toLowerCase e) \<notin> set (map email (rows d))"
  then show s: "signup now d fd =
          (Success ''You're on the list!'',
           d\<lparr>writes := writes d + 1,
             rows := rows d @ [\<lparr>row_id = length (rows d), email = trim (toLowerCase e),
                                source = or_null (source_field fd),
                                referrer = or_null (referrer_field fd), createdAt = now\<rparr>]\<rparr>)"
    by (simp add: signup_new)
  show "getWaitlistCount (snd (signup now d fd)) = Inr (length (rows d) + 1)"
    using a by (simp add: s getWaitlistCount_def prisma_count_def)
  show "getWaitlistCount d = Inr (length (rows d))"
    using a by (simp add: getWaitlistCount_def prisma_count_def)
qed (simp_all add: signup_dup submitWaitlist_new submitWaitlist_dup)

text \<open>
  The instance \<^verbatim>\<open>"Test@Example.com"\<close>: stored as \<^verbatim>\<open>"test@example.com"\<close>, total from 0 to 1, and
  \<^verbatim>\<open>"TEST@example.com"\<close> is a duplicate of it afterwards.
\<close>

theorem signup_normalizes_validated_witness:
  "signup 0 \<lparr>rows = [], fault = None, writes = 0\<rparr>
     \<lparr>email_field = Text ''Test@Example.com'', source_field = None, referrer_field = None\<rparr>
    = (Success ''You're on the list!'',
       \<lparr>rows = [\<lparr>row_id = 0, email = ''test@example.com'', source = None, referrer = None,
                  createdAt = 0\<rparr>], fault = None, writes = 1\<rparr>) \<and>
   getWaitlistCount \<lparr>rows = [], fault = None, writes = 0\<rparr> = Inr 0 \<and>
   getWaitlistCount (snd (signup 0 \<lparr>rows = [], fault = None, writes = 0\<rparr>
     \<lparr>email_field = Text ''Test@Example.com'', source_field = None, referrer_field = None\<rparr>))
    = Inr 1 \<and>
   signup 5 \<lparr>rows = [\<lparr>row_id = 0, email = ''test@example.com'', source = None, referrer = None,
                  createdAt = 0\<rparr>], fault = None, writes = 1\<rparr>
     \<lparr>email_field = Text ''TEST@example.com'', source_field = None, referrer_field = None\<rparr>
    = (Failure ''You're already on the list!'',
       \<lparr>rows = [\<lparr>row_id = 0, email = ''test@example.com'', source = None, referrer = None,
                  createdAt = 0\<rparr>], fault = None, writes = 2\<rparr>) \<and>
   submitWaitlist (\<lambda>v. case v of Text s \<Rightarrow> Inr s | _ \<Rightarrow> Inl ''Required'') 0
     \<lparr>rows = [], fault = None, writes = 0\<rparr>
     \<lparr>email_field = Text ''Test@Example.com'', source_field = None, referrer_field = None\<rparr>
    = (Success ''You're on the list! We'll be in touch soon.'',
       \<lparr>rows = [\<lparr>row_id = 0, email = ''test@example.com'', source = None, referrer = None,
                  createdAt = 0\<rparr>], fault = None, writes = 1\<rparr>) \<and>
   submitWaitlist (\<lambda>v. case v of Text s \<Rightarrow> Inr s | _ \<Rightarrow> Inl ''Required'') 5
     \<lparr>rows = [\<lparr>row_id = 0, email = ''test@example.com'', source = None, referrer = None,
                  createdAt = 0\<rparr>], fault = None, writes = 1\<rparr>
     \<lparr>email_field = Text ''TEST@example.com'', source_field = None, referrer_field = None\<rparr>
    = (Failure ''You're already on the waitlist!'',
       \<lparr>rows = [\<lparr>row_id = 0, email = ''test@example.com'', source = None, referrer = None,
                  createdAt = 0\<rparr>], fault = None, writes = 2\<rparr>)"
proof -
  have v1: "emailRegex_test ''Test@Example.com''" and v2: "emailRegex_test ''TEST@example.com''"
    by code_simp+
  have n1: "trim (toLowerCase ''Test@Example.com'') = ''test@example.com''"
    and n2: "trim (toLowerCase ''TEST@example.com'') = ''test@example.com''"
    by code_simp+
  note a = signup_normalizes_validated
     [of "\<lparr>email_field = Text ''Test@Example.com'', source_field = None, referrer_field = None\<rparr>"
         "''Test@Example.com''" "\<lparr>rows = [], fault = None, writes = 0\<rparr>" 0
         "\<lambda>v. case v of Text s \<Rightarrow> Inr s | _ \<Rightarrow> Inl ''Required''" "''Test@Example.com''"]
  note b = signup_normalizes_validated
     [of "\<lparr>email_field = Text ''TEST@example.com'', source_field = None, referrer_field = None\<rparr>"
         "''TEST@example.com''"
         "\<lparr>rows = [\<lparr>row_id = 0, email = ''test@example.com'', source = None, referrer = None,
                  createdAt = 0\<rparr>], fault = None, writes = 1\<rparr>" 5
         "\<lambda>v. case v of Text s \<Rightarrow> Inr s | _ \<Rightarrow> Inl ''Required''" "''TEST@example.com''"]
  show ?thesis
    using a b by (simp add: v1 v2 n1 n2 or_null_def getWaitlistCount_def prisma_count_def)
qed

text \<open>
  C2, as stated, fails for a second email that differs by surrounding white space: it is
  refused by the syntax rule, not as a duplicate.
\<close>

theorem duplicate_after_success_counterexample:
  "trim (toLowerCase ''a@x.com '') = trim (toLowerCase ''a@x.com'') \<and>
   fst (signup 0 \<lparr>rows = [], fault = None, writes = 0\<rparr>
          \<lparr>email_field = Text ''a@x.com'', source_field = None, referrer_field = None\<rparr>)
     = Success ''You're on the list!'' \<and>
   fst (signup 1
          (snd (signup 0 \<lparr>rows = [], fault = None, writes = 0\<rparr>
                  \<lparr>email_field = Text ''a@x.com'', source_field = None, referrer_field = None\<rparr>))
          \<lparr>email_field = Text ''a@x.com '', source_field = None, referrer_field = None\<rparr>)
     = Failure ''Please enter a valid email address''"
  by code_simp

text \<open>
  C2, amended. For every email that passes the syntax validation and is not stored yet, on a
  reachable store, submitting it and then any email that passes the syntax validation too
  and has the same normalized value yields success and then the duplicate message, and
  exactly one row holds the normalized value afterwards. For every validated submission
  the duplicate message is produced exactly when the insert reports the uniqueness
  violation P2002, and the transient message exactly when it fails in any other way.
\<close>

theorem duplicate_after_success:
  "(email_field fd = Text e \<and> emailRegex_test e \<and>
    email_field fd' = Text e' \<and> emailRegex_test e' \<and>
    trim (toLowerCase e') = trim (toLowerCase e) \<and>
    fault d = None \<and> trim (toLowerCase e) \<notin> set (map email (rows d))
    \<longrightarrow> fst (signup now d fd) = Success ''You're on the list!'' \<and>
        fst (signup now' (snd (signup now d fd)) fd') = Failure ''You're already on the list!'' \<and>
        length (filter (\<lambda>r. email r = trim (toLowerCase e))
                  (rows (snd (signup now' (snd (signup now d fd)) fd')))) = 1) \<and>
   (safeParse (email_field fd) = Inr p \<and> safeParse (email_field fd') = Inr p' \<and>
    trim (toLowerCase p') = trim (toLowerCase p) \<and>
    fault d = None \<and> trim (toLowerCase p) \<notin> set (map email (rows d))
    \<longrightarrow> fst (submitWaitlist safeParse now d fd)
          = Success ''You're on the list! We'll be in touch soon.'' \<and>
        fst (submitWaitlist safeParse now' (snd (submitWaitlist safeParse now d fd)) fd')
          = Failure ''You're already on the waitlist!'' \<and>
        length (filter (\<lambda>r. email r = trim (toLowerCase p))
                  (rows (snd (submitWaitlist safeParse now'
                                (snd (submitWaitlist safeParse now d fd)) fd')))) = 1) \<and>
   (email_field g = Text a \<and> emailRegex_test a
    \<longrightarrow> (fst (signup t x g) = Failure ''You're already on the list!''
           \<longleftrightarrow> (\<exists>err. fst (prisma_create t x
                   \<lparr>data_email = trim (toLowerCase a), data_source = or_null (source_field g),
                    data_referrer = or_null (referrer_field g)\<rparr>) = Inl err \<and> is_P2002 err)) \<and>
        (fst (signup t x g) = Failure ''Something went wrong. Please try again.''
           \<longleftrightarrow> (\<exists>err. fst (prisma_create t x
                   \<lparr>data_email = trim (toLowerCase a), data_source = or_null (source_field g),
                    data_referrer = or_null (referrer_field g)\<rparr>) = Inl err \<and> \<not> is_P2002 err))) \<and>
   (safeParse (email_field g) = Inr a
    \<longrightarrow> (fst (submitWaitlist safeParse t x g) = Failure ''You're already on the waitlist!''
           \<longleftrightarrow> (\<exists>err. fst (prisma_create t x
                   \<lparr>data_email = trim (toLowerCase a), data_source = or_null (source_field g),
                    data_referrer = or_null (referrer_field g)\<rparr>) = Inl err \<and> is_P2002 err)) \<and>
        (fst (submitWaitlist safeParse t x g) = Failure ''Something went wrong. Please try again.''
           \<longleftrightarrow> (\<exists>err. fst (prisma_create t x
                   \<lparr>data_email = trim (toLowerCase a), data_source = or_null (source_field g),
                    data_referrer = or_null (referrer_field g)\<rparr>) = Inl err \<and> \<not> is_P2002 err)))"
proof (intro conjI impI)
  assume a: "email_field fd = Text e \<and> emailRegex_test e \<and>
    email_field fd' = Text e' \<and> emailRegex_test e' \<and>
    trim (toLowerCase e') = trim (toLowerCase e) \<and>
    fault d = None \<and> trim (toLowerCase e) \<notin> set (map email (rows d))"
  then have 1: "signup now d fd =
          (Success ''You're on the list!'',
           d\<lparr>writes := writes d + 1,
             rows := rows d @ [\<lparr>row_id = length (rows d), email = trim (toLowerCase e),
                                source = or_null (source_field fd),
                                referrer = or_null (referrer_field fd), createdAt = now\<rparr>]\<rparr>)"
    by (simp add: signup_new)
  have 2: "signup now' (snd (signup now d fd)) fd' =
     (Failure ''You're already on the list!'', (snd (signup now d fd))\<lparr>writes := writes (snd (signup now d fd)) + 1\<rparr>)"
    by (rule signup_dup[of _ e']) (use a in \<open>simp_all add: 1\<close>)
  show "fst (signup now d fd) = Success ''You're on the list!''" by (simp add: 1)
  show "fst (signup now' (snd (signup now d fd)) fd') = Failure ''You're already on the list!''"
    by (simp add: 2)
  show "length (filter (\<lambda>r. email r = trim (toLowerCase e))
                  (rows (snd (signup now' (snd (signup now d fd)) fd')))) = 1"
    using a by (simp add: 2) (simp add: 1 filter_absent)
next
  assume a: "safeParse (email_field fd) = Inr p \<and> safeParse (email_field fd') = Inr p' \<and>
    trim (toLowerCase p') = trim (toLowerCase p) \<and>
    fault d = None \<and> trim (toLowerCase p) \<notin> set (map email (rows d))"
  then have 1: "submitWaitlist safeParse now d fd =
          (Success ''You're on the list! We'll be in touch soon.'',
           d\<lparr>writes := writes d + 1,
             rows := rows d @ [\<lparr>row_id = length (rows d), email = trim (toLowerCase p),
                                source = or_null (source_field fd),
                                referrer = or_null (referrer_field fd), createdAt = now\<rparr>]\<rparr>)"
    by (simp add: submitWaitlist_new)
  have 2: "submitWaitlist safeParse now' (snd (submitWaitlist safeParse now d fd)) fd' =
     (Failure ''You're already on the waitlist!'',
      (snd (submitWaitlist safeParse now d fd))\<lparr>writes := writes (snd (submitWaitlist safeParse now d fd)) + 1\<rparr>)"
    by (rule submitWaitlist_dup[of _ _ p']) (use a in \<open>simp_all add: 1\<close>)
  show "fst (submitWaitlist safeParse now d fd)
          = Success ''You're on the list! We'll be in touch soon.''" by (simp add: 1)
  show "fst (submitWaitlist safeParse now' (snd (submitWaitlist safeParse now d fd)) fd')
          = Failure ''You're already on the waitlist!''"
    by (simp add: 2)
  show "length (filter (\<lambda>r. email r = trim (toLowerCase p))
                  (rows (snd (submitWaitlist safeParse now'
                                (snd (submitWaitlist safeParse now d fd)) fd')))) = 1"
    using a by (simp add: 2) (simp add: 1 filter_absent)
next
  assume "email_field g = Text a \<and> emailRegex_test a"
  then have e: "signup t x g =
     (case prisma_create t x
             \<lparr>data_email = trim (toLowerCase a),
              data_source = or_null (source_field g),
              data_referrer = or_null (referrer_field g)\<rparr> of
        (Inr r, d') \<Rightarrow> (Success ''You're on the list!'', d')
      | (Inl err, d') \<Rightarrow>
          if is_P2002 err then (Failure ''You're already on the list!'', d')
          else (Failure ''Something went wrong. Please try again.'', d'))"
    by (simp add: signup_valid_eq)
  show "fst (signup t x g) = Failure ''You're already on the list!''
           \<longleftrightarrow> (\<exists>err. fst (prisma_create t x
                   \<lparr>data_email = trim (toLowerCase a), data_source = or_null (source_field g),
                    data_referrer = or_null (referrer_field g)\<rparr>) = Inl err \<and> is_P2002 err)"
    unfolding e by (auto split: prod.splits sum.splits)
  show "fst (signup t x g) = Failure ''Something went wrong. Please try again.''
           \<longleftrightarrow> (\<exists>err. fst (prisma_create t x
                   \<lparr>data_email = trim (toLowerCase a), data_source = or_null (source_field g),
                    data_referrer = or_null (referrer_field g)\<rparr>) = Inl err \<and> \<not> is_P2002 err)"
    unfolding e by (auto split: prod.splits sum.splits)
next
  assume a: "safeParse (email_field g) = Inr a"
  show "fst (submitWaitlist safeParse t x g) = Failure ''You're already on the waitlist!''
           \<longleftrightarrow> (\<exists>err. fst (prisma_create t x
                   \<lparr>data_email = trim (toLowerCase a), data_source = or_null (source_field g),
                    data_referrer = or_null (referrer_field g)\<rparr>) = Inl err \<and> is_P2002 err)"
    unfolding submitWaitlist_def a by (auto split: prod.splits sum.splits)
  show "fst (submitWaitlist safeParse t x g) = Failure ''Something went wrong. Please try again.''
           \<longleftrightarrow> (\<exists>err. fst (prisma_create t x
                   \<lparr>data_email = trim (toLowerCase a), data_source = or_null (source_field g),
                    data_referrer = or_null (referrer_field g)\<rparr>) = Inl err \<and> \<not> is_P2002 err)"
    unfolding submitWaitlist_def a by (auto split: prod.splits sum.splits)
qed

theorem duplicate_after_success_witness:
  "fst (signup 0 \<lparr>rows = [], fault = None, writes = 0\<rparr>
          \<lparr>email_field = Text ''A@x.com'', source_field = None, referrer_field = None\<rparr>)
     = Success ''You're on the list!'' \<and>
   fst (signup 1
          (snd (signup 0 \<lparr>rows = [], fault = None, writes = 0\<rparr>
                  \<lparr>email_field = Text ''A@x.com'', source_field = None, referrer_field = None\<rparr>))
          \<lparr>email_field = Text ''a@X.com'', source_field = None, referrer_field = None\<rparr>)
     = Failure ''You're already on the list!'' \<and>
   length (filter (\<lambda>r. email r = trim (toLowerCase ''A@x.com''))
     (rows (snd (signup 1
          (snd (signup 0 \<lparr>rows = [], fault = None, writes = 0\<rparr>
                  \<lparr>email_field = Text ''A@x.com'', source_field = None, referrer_field = None\<rparr>))
          \<lparr>email_field = Text ''a@X.com'', source_field = None, referrer_field = None\<rparr>)))) = 1 \<and>
   fst (submitWaitlist (\<lambda>v. case v of Text s \<Rightarrow> Inr s | _ \<Rightarrow> Inl ''Required'') 0
          \<lparr>rows = [], fault = None, writes = 0\<rparr>
          \<lparr>email_field = Text ''A@x.com'', source_field = None, referrer_field = None\<rparr>)
     = Success ''You're on the list! We'll be in touch soon.'' \<and>
   fst (submitWaitlist (\<lambda>v. case v of Text s \<Rightarrow> Inr s | _ \<Rightarrow> Inl ''Required'') 1
          (snd (submitWaitlist (\<lambda>v. case v of Text s \<Rightarrow> Inr s | _ \<Rightarrow> Inl ''Required'') 0
                  \<lparr>rows = [], fault = None, writes = 0\<rparr>
                  \<lparr>email_field = Text ''A@x.com'', source_field = None, referrer_field = None\<rparr>))
          \<lparr>email_field = Text ''a@X.com'', source_field = None, referrer_field = None\<rparr>)
     = Failure ''You're already on the waitlist!'' \<and>
   fst (signup 2 \<lparr>rows = [], fault = Some OtherError, writes = 0\<rparr>
          \<lparr>email_field = Text ''A@x.com'', source_field = None, referrer_field = None\<rparr>)
     = Failure ''Something went wrong. Please try again.'' \<and>
   fst (submitWaitlist (\<lambda>v. case v of Text s \<Rightarrow> Inr s | _ \<Rightarrow> Inl ''Required'') 2
          \<lparr>rows = [], fault = Some OtherError, writes = 0\<rparr>
          \<lparr>email_field = Text ''A@x.com'', source_field = None, referrer_field = None\<rparr>)
     = Failure ''Something went wrong. Please try again.''"
proof -
  have v: "emailRegex_test ''A@x.com''" "emailRegex_test ''a@X.com''"
    "trim (toLowerCase ''a@X.com'') = trim (toLowerCase ''A@x.com'')"
    by code_simp+
  have f: "fst (prisma_create 2 \<lparr>rows = [], fault = Some OtherError, writes = 0\<rparr>
             \<lparr>data_email = trim (toLowerCase ''A@x.com''), data_source = or_null None,
              data_referrer = or_null None\<rparr>) = Inl OtherError" "\<not> is_P2002 OtherError"
    by (simp_all add: prisma_create_def is_P2002_def)
  note T = duplicate_after_success
    [of "\<lparr>email_field = Text ''A@x.com'', source_field = None, referrer_field = None\<rparr>" "''A@x.com''"
        "\<lparr>email_field = Text ''a@X.com'', source_field = None, referrer_field = None\<rparr>" "''a@X.com''"
        "\<lparr>rows = [], fault = None, writes = 0\<rparr>" 0 1
        "\<lambda>v. case v of Text s \<Rightarrow> Inr s | _ \<Rightarrow> Inl ''Required''" "''A@x.com''" "''a@X.com''"
        "\<lparr>email_field = Text ''A@x.com'', source_field = None, referrer_field = None\<rparr>" "''A@x.com''"
        2 "\<lparr>rows = [], fault = Some OtherError, writes = 0\<rparr>"]
  have g: "\<exists>err. fst (prisma_create 2 \<lparr>rows = [], fault = Some OtherError, writes = 0\<rparr>
             \<lparr>data_email = trim (toLowerCase ''A@x.com''), data_source = or_null None,
              data_referrer = or_null None\<rparr>) = Inl err \<and> \<not> is_P2002 err"
    using f by blast
  show ?thesis
    using T v g by simp
qed

text \<open>
  C8. For every input that is missing, not a string, or a string that does not match the
  email syntax rule (empty included; read on the submitted or on the normalized string),
  \<^verbatim>\<open>signup\<close> answers one of its two validation messages and leaves the store as it was: no
  row and no create call. \<^verbatim>\<open>submitWaitlist\<close> does so whenever its schema refuses the input.
\<close>

theorem invalid_email_rejected:
  "(email_field fd = Absent \<or> email_field fd = File \<or>
      (\<exists>e. email_field fd = Text e \<and>
           (\<not> emailRegex_test e \<or> \<not> emailRegex_test (trim (toLowerCase e))))
     \<longrightarrow> (fst (signup now d fd) = Failure ''Email is required'' \<or>
          fst (signup now d fd) = Failure ''Please enter a valid email address'') \<and>
         snd (signup now d fd) = d) \<and>
   (safeParse (email_field fd) = Inl message
     \<longrightarrow> submitWaitlist safeParse now d fd = (Failure message, d))"
proof (intro conjI impI)
  assume a: "email_field fd = Absent \<or> email_field fd = File \<or>
      (\<exists>e. email_field fd = Text e \<and>
           (\<not> emailRegex_test e \<or> \<not> emailRegex_test (trim (toLowerCase e))))"
  have v: "\<And>e. emailRegex_test e \<Longrightarrow> emailRegex_test (trim (toLowerCase e))"
    using emailRegex_lower sanitize_valid by simp
  show "fst (signup now d fd) = Failure ''Email is required'' \<or>
          fst (signup now d fd) = Failure ''Please enter a valid email address''"
    using a v by (auto simp: signup_def split: form_entry.splits)
  show "snd (signup now d fd) = d"
    using a v by (auto simp: signup_def split: form_entry.splits)
next
  assume "safeParse (email_field fd) = Inl message"
  then show "submitWaitlist safeParse now d fd = (Failure message, d)"
    by (simp add: submitWaitlist_def)
qed

theorem invalid_email_rejected_witness:
  "\<not> emailRegex_test ''not-an-email'' \<and>
   signup 0 \<lparr>rows = [], fault = None, writes = 0\<rparr>
     \<lparr>email_field = Text ''not-an-email'', source_field = None, referrer_field = None\<rparr>
    = (Failure ''Please enter a valid email address'', \<lparr>rows = [], fault = None, writes = 0\<rparr>) \<and>
   submitWaitlist (\<lambda>v. Inl ''Please enter a valid email address'') 0
     \<lparr>rows = [], fault = None, writes = 0\<rparr>
     \<lparr>email_field = Text ''not-an-email'', source_field = None, referrer_field = None\<rparr>
    = (Failure ''Please enter a valid email address'', \<lparr>rows = [], fault = None, writes = 0\<rparr>)"
proof -
  have n: "\<not> emailRegex_test ''not-an-email''" by code_simp
  have s: "signup 0 \<lparr>rows = [], fault = None, writes = 0\<rparr>
     \<lparr>email_field = Text ''not-an-email'', source_field = None, referrer_field = None\<rparr>
    = (Failure ''Please enter a valid email address'', \<lparr>rows = [], fault = None, writes = 0\<rparr>)"
    by code_simp
  from n s invalid_email_rejected
     [of "\<lparr>email_field = Text ''not-an-email'', source_field = None, referrer_field = None\<rparr>"
         0 "\<lparr>rows = [], fault = None, writes = 0\<rparr>"
         "\<lambda>v. Inl ''Please enter a valid email address''" "''Please enter a valid email address''"]
  show ?thesis by simp
qed

lemma or_null_empty: "or_null (Some []) = None" "or_null None = None"
  by (simp_all add: or_null_def)

lemma or_null_not_empty: "or_null x \<noteq> Some []"
  by (simp add: or_null_def split: option.splits)

lemma source_groups_member:
  "s \<in> set (map source rs) \<Longrightarrow> (s, length (filter (\<lambda>r. source r = s) rs)) \<in> set (source_groups rs)"
  by (auto simp: source_groups_def)

text \<open>
  C10. For every submission, an empty-string \<^verbatim>\<open>source\<close> or \<^verbatim>\<open>referrer\<close> gives the same result
  and the same store as an absent one (the coercion \<^verbatim>\<open>|| null\<close>); the stored field is
  \<^verbatim>\<open>null\<close>, its label is the sentinel, and the row is counted in the group of the absent
  source.
\<close>

theorem empty_attribution_stored_as_null:
  "signup now d (fd\<lparr>source_field := Some []\<rparr>) = signup now d (fd\<lparr>source_field := None\<rparr>) \<and>
   signup now d (fd\<lparr>referrer_field := Some []\<rparr>) = signup now d (fd\<lparr>referrer_field := None\<rparr>) \<and>
   submitWaitlist safeParse now d (fd\<lparr>source_field := Some []\<rparr>)
     = submitWaitlist safeParse now d (fd\<lparr>source_field := None\<rparr>) \<and>
   submitWaitlist safeParse now d (fd\<lparr>referrer_field := Some []\<rparr>)
     = submitWaitlist safeParse now d (fd\<lparr>referrer_field := None\<rparr>) \<and>
   (email_field fd = Text e \<and> emailRegex_test e \<and> fault d = None \<and>
    trim (toLowerCase e) \<notin> set (map email (rows d)) \<and>
    (source_field fd = Some [] \<or> source_field fd = None)
    \<longrightarrow> source (last (rows (snd (signup now d fd)))) = None \<and>
        source_label (source (last (rows (snd (signup now d fd))))) = ''Direct'' \<and>
        (None, length (filter (\<lambda>r. source r = None) (rows d)) + 1)
          \<in> set (source_groups (rows (snd (signup now d fd))))) \<and>
   (email_field fd = Text e \<and> emailRegex_test e \<and> fault d = None \<and>
    trim (toLowerCase e) \<notin> set (map email (rows d)) \<and>
    (referrer_field fd = Some [] \<or> referrer_field fd = None)
    \<longrightarrow> referrer (last (rows (snd (signup now d fd)))) = None) \<and>
   (safeParse (email_field fd) = Inr p \<and> fault d = None \<and>
    trim (toLowerCase p) \<notin> set (map email (rows d)) \<and>
    (source_field fd = Some [] \<or> source_field fd = None)
    \<longrightarrow> source (last (rows (snd (submitWaitlist safeParse now d fd)))) = None \<and>
        (None, length (filter (\<lambda>r. source r = None) (rows d)) + 1)
          \<in> set (source_groups (rows (snd (submitWaitlist safeParse now d fd))))) \<and>
   (safeParse (email_field fd) = Inr p \<and> fault d = None \<and>
    trim (toLowerCase p) \<notin> set (map email (rows d)) \<and>
    (referrer_field fd = Some [] \<or> referrer_field fd = None)
    \<longrightarrow> referrer (last (rows (snd (submitWaitlist safeParse now d fd)))) = None)"
proof (intro conjI impI)
  show "signup now d (fd\<lparr>source_field := Some []\<rparr>) = signup now d (fd\<lparr>source_field := None\<rparr>)"
    by (cases "email_field fd") (simp_all add: signup_def or_null_empty)
  show "signup now d (fd\<lparr>referrer_field := Some []\<rparr>) = signup now d (fd\<lparr>referrer_field := None\<rparr>)"
    by (cases "email_field fd") (simp_all add: signup_def or_null_empty)
  show "submitWaitlist safeParse now d (fd\<lparr>source_field := Some []\<rparr>)
     = submitWaitlist safeParse now d (fd\<lparr>source_field := None\<rparr>)"
    by (cases "safeParse (email_field fd)") (simp_all add: submitWaitlist_def or_null_empty)
  show "submitWaitlist safeParse now d (fd\<lparr>referrer_field := Some []\<rparr>)
     = submitWaitlist safeParse now d (fd\<lparr>referrer_field := None\<rparr>)"
    by (cases "safeParse (email_field fd)") (simp_all add: submitWaitlist_def or_null_empty)
next
  assume a: "email_field fd = Text e \<and> emailRegex_test e \<and> fault d = None \<and>
    trim (toLowerCase e) \<notin> set (map email (rows d)) \<and>
    (source_field fd = Some [] \<or> source_field fd = None)"
  then have n: "or_null (source_field fd) = None" by (auto simp: or_null_empty)
  have s: "rows (snd (signup now d fd)) =
      rows d @ [\<lparr>row_id = length (rows d), email = trim (toLowerCase e), source = None,
                 referrer = or_null (referrer_field fd), createdAt = now\<rparr>]"
    using a by (simp add: signup_new n)
  show "source (last (rows (snd (signup now d fd)))) = None" by (simp add: s)
  then show "source_label (source (last (rows (snd (signup now d fd))))) = ''Direct''"
    by (simp add: source_label_def)
  show "(None, length (filter (\<lambda>r. source r = None) (rows d)) + 1)
          \<in> set (source_groups (rows (snd (signup now d fd))))"
    using source_groups_member[of None "rows (snd (signup now d fd))"] by (simp add: s)
next
  assume a: "email_field fd = Text e \<and> emailRegex_test e \<and> fault d = None \<and>
    trim (toLowerCase e) \<notin> set (map email (rows d)) \<and>
    (referrer_field fd = Some [] \<or> referrer_field fd = None)"
  then have n: "or_null (referrer_field fd) = None" by (auto simp: or_null_empty)
  show "referrer (last (rows (snd (signup now d fd)))) = None"
    using a by (simp add: signup_new n)
next
  assume a: "safeParse (email_field fd) = Inr p \<and> fault d = None \<and>
    trim (toLowerCase p) \<notin> set (map email (rows d)) \<and>
    (source_field fd = Some [] \<or> source_field fd = None)"
  then have n: "or_null (source_field fd) = None" by (auto simp: or_null_empty)
  have s: "rows (snd (submitWaitlist safeParse now d fd)) =
      rows d @ [\<lparr>row_id = length (rows d), email = trim (toLowerCase p), source = None,
                 referrer = or_null (referrer_field fd), createdAt = now\<rparr>]"
    using a by (simp add: submitWaitlist_new n)
  show "source (last (rows (snd (submitWaitlist safeParse now d fd)))) = None" by (simp add: s)
  show "(None, length (filter (\<lambda>r. source r = None) (rows d)) + 1)
          \<in> set (source_groups (rows (snd (submitWaitlist safeParse now d fd))))"
    using source_groups_member[of None "rows (snd (submitWaitlist safeParse now d fd))"]
    by (simp add: s)
next
  assume a: "safeParse (email_field fd) = Inr p \<and> fault d = None \<and>
    trim (toLowerCase p) \<notin> set (map email (rows d)) \<and>
    (referrer_field fd = Some [] \<or> referrer_field fd = None)"
  then have n: "or_null (referrer_field fd) = None" by (auto simp: or_null_empty)
  show "referrer (last (rows (snd (submitWaitlist safeParse now d fd)))) = None"
    using a by (simp add: submitWaitlist_new n)
qed

theorem empty_attribution_stored_as_null_witness:
  "signup 7 \<lparr>rows = [], fault = None, writes = 0\<rparr>
     \<lparr>email_field = Text ''a@x.com'', source_field = Some [], referrer_field = Some []\<rparr>
    = (Success ''You're on the list!'',
       \<lparr>rows = [\<lparr>row_id = 0, email = ''a@x.com'', source = None, referrer = None,
                  createdAt = 7\<rparr>], fault = None, writes = 1\<rparr>) \<and>
   source (last (rows (snd (signup 7 \<lparr>rows = [], fault = None, writes = 0\<rparr>
     \<lparr>email_field = Text ''a@x.com'', source_field = Some [], referrer_field = Some []\<rparr>)))) = None \<and>
   (None, 1) \<in> set (source_groups (rows (snd (signup 7 \<lparr>rows = [], fault = None, writes = 0\<rparr>
     \<lparr>email_field = Text ''a@x.com'', source_field = Some [], referrer_field = Some []\<rparr>)))) \<and>
   referrer (last (rows (snd (signup 7 \<lparr>rows = [], fault = None, writes = 0\<rparr>
     \<lparr>email_field = Text ''a@x.com'', source_field = Some [], referrer_field = Some []\<rparr>)))) = None \<and>
   source (last (rows (snd (submitWaitlist (\<lambda>v. case v of Text s \<Rightarrow> Inr s | _ \<Rightarrow> Inl ''Required'') 7
     \<lparr>rows = [], fault = None, writes = 0\<rparr>
     \<lparr>email_field = Text ''a@x.com'', source_field = Some [], referrer_field = Some []\<rparr>)))) = None \<and>
   referrer (last (rows (snd (submitWaitlist (\<lambda>v. case v of Text s \<Rightarrow> Inr s | _ \<Rightarrow> Inl ''Required'') 7
     \<lparr>rows = [], fault = None, writes = 0\<rparr>
     \<lparr>email_field = Text ''a@x.com'', source_field = Some [], referrer_field = Some []\<rparr>)))) = None"
proof -
  have v: "emailRegex_test ''a@x.com''" "trim (toLowerCase ''a@x.com'') = ''a@x.com''"
    by code_simp+
  have s: "signup 7 \<lparr>rows = [], fault = None, writes = 0\<rparr>
     \<lparr>email_field = Text ''a@x.com'', source_field = Some [], referrer_field = Some []\<rparr>
    = (Success ''You're on the list!'',
       \<lparr>rows = [\<lparr>row_id = 0, email = ''a@x.com'', source = None, referrer = None,
                  createdAt = 7\<rparr>], fault = None, writes = 1\<rparr>)"
    by code_simp
  note T = empty_attribution_stored_as_null
    [of 7 "\<lparr>rows = [], fault = None, writes = 0\<rparr>"
        "\<lparr>email_field = Text ''a@x.com'', source_field = Some [], referrer_field = Some []\<rparr>"
        "\<lambda>v. case v of Text s \<Rightarrow> Inr s | _ \<Rightarrow> Inl ''Required''" "''a@x.com''" "''a@x.com''"]
  note I = T [THEN conjunct2, THEN conjunct2, THEN conjunct2, THEN conjunct2]
  show ?thesis
    using I v s by simp
qed

subsection \<open>Submissions in flight together\<close>

lemma signup_all_dups:
  assumes "fault d = None" "n \<in> set (map email (rows d))"
    "\<forall>fd \<in> set fds. \<exists>e. email_field fd = Text e \<and> emailRegex_test e \<and> trim (toLowerCase e) = n"
  shows "signup_all now d fds =
     (replicate (length fds) (Failure ''You're already on the list!''),
      d\<lparr>writes := writes d + length fds\<rparr>)"
  using assms
proof (induction fds arbitrary: d)
  case Nil
  then show ?case by simp
next
  case (Cons fd fds)
  then obtain e where e: "email_field fd = Text e" "emailRegex_test e" "trim (toLowerCase e) = n"
    by auto
  have s: "signup now d fd = (Failure ''You're already on the list!'', d\<lparr>writes := writes d + 1\<rparr>)"
    using e Cons.prems(1,2) by (simp add: signup_dup)
  have "signup_all now (d\<lparr>writes := writes d + 1\<rparr>) fds =
     (replicate (length fds) (Failure ''You're already on the list!''),
      d\<lparr>writes := writes d + 1, writes := writes (d\<lparr>writes := writes d + 1\<rparr>) + length fds\<rparr>)"
    using Cons.IH[of "d\<lparr>writes := writes d + 1\<rparr>"] Cons.prems by simp
  then show ?case by (simp add: s)
qed

lemma signup_all_same_email:
  assumes "fault d = None" "n \<notin> set (map email (rows d))"
    "\<forall>fd \<in> set (fd0 # fds). \<exists>e. email_field fd = Text e \<and> emailRegex_test e \<and> trim (toLowerCase e) = n"
  shows "fst (signup_all now d (fd0 # fds)) =
           Success ''You're on the list!'' # replicate (length fds) (Failure ''You're already on the list!'')"
    and "length (filter (\<lambda>r. email r = n) (rows (snd (signup_all now d (fd0 # fds))))) = 1"
proof -
  from assms(3) obtain e where e: "email_field fd0 = Text e" "emailRegex_test e" "trim (toLowerCase e) = n"
    by auto
  let ?r = "\<lparr>row_id = length (rows d), email = n, source = or_null (source_field fd0),
             referrer = or_null (referrer_field fd0), createdAt = now\<rparr>"
  let ?d1 = "d\<lparr>writes := writes d + 1, rows := rows d @ [?r]\<rparr>"
  have s: "signup now d fd0 = (Success ''You're on the list!'', ?d1)"
    using signup_new[of fd0 e d now] e assms(1,2) by simp
  have a: "signup_all now ?d1 fds =
     (replicate (length fds) (Failure ''You're already on the list!''),
      ?d1\<lparr>writes := writes ?d1 + length fds\<rparr>)"
    by (rule signup_all_dups[of _ n]) (use assms in simp_all)
  have w: "signup_all now d (fd0 # fds) =
     (Success ''You're on the list!'' # replicate (length fds) (Failure ''You're already on the list!''),
      ?d1\<lparr>writes := writes ?d1 + length fds\<rparr>)"
    by (simp only: signup_all.simps s a prod.case)
  show "fst (signup_all now d (fd0 # fds)) =
           Success ''You're on the list!'' # replicate (length fds) (Failure ''You're already on the list!'')"
    by (simp only: w fst_conv)
  show "length (filter (\<lambda>r. email r = n) (rows (snd (signup_all now d (fd0 # fds))))) = 1"
    using assms(2) by (simp only: w snd_conv) (simp add: filter_absent)
qed

text \<open>
  C9. N simultaneous submissions of the same normalized email against an empty store are to
  give exactly one success and N - 1 duplicates, by an atomic check-and-insert. The
  \<^verbatim>\<open>submitWaitlist\<close> of the App Router guide reads and then writes: when two calls both pass
  their \<^verbatim>\<open>findUnique\<close> before either inserts, the second insert is refused by the store and
  its caller gets the message of a transient failure, not the duplicate one. Run one after
  the other the same two calls give success and duplicate, as two calls of \<^verbatim>\<open>signup\<close>
  (one await each, with a test for P2002) always do.
\<close>

theorem concurrent_submissions_race:
  "run_schedule 0 [0, 1, 0, 1]
     ([AwaitFindUnique ''a@x.com'' None, AwaitFindUnique ''a@x.com'' None],
      \<lparr>rows = [], fault = None, writes = 0\<rparr>)
   = ([Finished (Success ''Successfully joined!''),
       Finished (Failure ''Something went wrong. Please try again.'')],
      \<lparr>rows = [\<lparr>row_id = 0, email = ''a@x.com'', source = None, referrer = None, createdAt = 0\<rparr>],
       fault = None, writes = 2\<rparr>) \<and>
   run_schedule 0 [0, 0, 1, 1]
     ([AwaitFindUnique ''a@x.com'' None, AwaitFindUnique ''a@x.com'' None],
      \<lparr>rows = [], fault = None, writes = 0\<rparr>)
   = ([Finished (Success ''Successfully joined!''),
       Finished (Failure ''You're already on the waitlist!'')],
      \<lparr>rows = [\<lparr>row_id = 0, email = ''a@x.com'', source = None, referrer = None, createdAt = 0\<rparr>],
       fault = None, writes = 1\<rparr>) \<and>
   submitWaitlist_begin (\<lambda>v. case v of Text s \<Rightarrow> Inr s | _ \<Rightarrow> Inl ''Invalid email address'')
     \<lparr>email_field = Text ''a@x.com'', source_field = None, referrer_field = None\<rparr>
   = AwaitFindUnique ''a@x.com'' None \<and>
   fst (signup_all 0 \<lparr>rows = [], fault = None, writes = 0\<rparr>
     [\<lparr>email_field = Text ''a@x.com'', source_field = None, referrer_field = None\<rparr>,
      \<lparr>email_field = Text ''a@x.com'', source_field = None, referrer_field = None\<rparr>])
   = [Success ''You're on the list!'', Failure ''You're already on the list!'']"
  by code_simp

section \<open>Properties of the queries on an unreachable store\<close>

lemma getSignupsOverTime_fault: "fault d = Some t \<Longrightarrow> getSignupsOverTime now d days = Inl t"
  by (simp add: getSignupsOverTime_def prisma_findMany_since_def)

text \<open>
  C3, as stated, fails: on an unreachable store the public count answers 0, as it does on
  an empty reachable store.
\<close>

theorem count_unreachable_counterexample:
  "getWaitlistCount \<lparr>rows = [], fault = Some OtherError, writes = 0\<rparr> = Inr 0 \<and>
   getWaitlistCount \<lparr>rows = [], fault = None, writes = 0\<rparr> = Inr 0 \<and>
   GET \<lparr>rows = [], fault = Some OtherError, writes = 0\<rparr> = Inr \<lparr>status = 200, count = 0\<rparr>"
  by (simp add: getWaitlistCount_def GET_def prisma_count_def)

text \<open>
  C3, amended. When the store is unreachable, the public total-count queries
  (\<^verbatim>\<open>getWaitlistCount\<close> and the route \<^verbatim>\<open>GET /api/count\<close>) answer the count 0, which an empty
  waitlist answers too; the aggregation queries of the dashboard (\<^verbatim>\<open>getDashboardStats\<close>,
  \<^verbatim>\<open>getSignupsOverTime\<close>, \<^verbatim>\<open>getSignupsBySource\<close>) pass the error of the store on to the caller.
\<close>

theorem unreachable_store_results:
  "fault d = Some t \<longrightarrow>
     getWaitlistCount d = Inr 0 \<and>
     GET d = Inr \<lparr>status = 200, count = 0\<rparr> \<and>
     getWaitlistCount d = getWaitlistCount \<lparr>rows = [], fault = None, writes = 0\<rparr> \<and>
     getDashboardStats now midnight d = Inl t \<and>
     getSignupsOverTime now d days = Inl t \<and>
     getSignupsBySource d = Inl t"
  by (simp add: getWaitlistCount_def GET_def prisma_count_def getDashboardStats_def
        getSignupsOverTime_fault getSignupsBySource_def prisma_groupBy_source_def)

theorem unreachable_store_results_witness:
  "getWaitlistCount \<lparr>rows = [], fault = Some OtherError, writes = 0\<rparr> = Inr 0 \<and>
   GET \<lparr>rows = [], fault = Some OtherError, writes = 0\<rparr> = Inr \<lparr>status = 200, count = 0\<rparr> \<and>
   getDashboardStats 0 0 \<lparr>rows = [], fault = Some OtherError, writes = 0\<rparr> = Inl OtherError \<and>
   getSignupsOverTime 0 \<lparr>rows = [], fault = Some OtherError, writes = 0\<rparr> 30 = Inl OtherError \<and>
   getSignupsBySource \<lparr>rows = [], fault = Some OtherError, writes = 0\<rparr> = Inl OtherError"
  using unreachable_store_results
    [of "\<lparr>rows = [], fault = Some OtherError, writes = 0\<rparr>" OtherError 0 0 30]
  by simp

section \<open>Properties of the Analytics Aggregator\<close>

lemma sum_filter_lengths:
  assumes "finite S" "f ` set xs \<subseteq> S"
  shows "(\<Sum>s\<in>S. length (filter (\<lambda>r. f r = s) xs)) = length xs"
  using assms(2)
proof (induction xs)
  case Nil
  then show ?case by simp
next
  case (Cons x xs)
  have "(\<Sum>s\<in>S. length (filter (\<lambda>r. f r = s) (x # xs)))
      = (\<Sum>s\<in>S. (if f x = s then 1 else 0) + length (filter (\<lambda>r. f r = s) xs))"
    by (rule sum.cong) auto
  also have "\<dots> = (\<Sum>s\<in>S. (if f x = s then 1 else 0)) + (\<Sum>s\<in>S. length (filter (\<lambda>r. f r = s) xs))"
    by (simp add: sum.distrib)
  also have "(\<Sum>s\<in>S. (if f x = s then 1 else 0 :: nat)) = 1"
    using Cons.prems assms(1) by (simp add: sum.delta')
  finally show ?case using Cons by simp
qed

lemma source_groups_sum: "sum_list (map snd (source_groups rs)) = length rs"
proof -
  have "sum_list (map snd (source_groups rs))
      = sum_list (map (\<lambda>s. length (filter (\<lambda>r. source r = s) rs)) (remdups (map source rs)))"
    by (simp add: source_groups_def comp_def)
  also have "\<dots> = (\<Sum>s\<in>set (map source rs). length (filter (\<lambda>r. source r = s) rs))"
    by (simp add: sum_list_distinct_conv_sum_set)
  also have "\<dots> = length rs"
    by (rule sum_filter_lengths) auto
  finally show ?thesis .
qed

lemma sum_list_insort_key:
  "sum_list (map g (insort_key k x xs)) = (g x :: nat) + sum_list (map g xs)"
  by (induction xs) auto

lemma sum_list_sort_key: "sum_list (map g (sort_key k xs)) = (sum_list (map g xs) :: nat)"
  by (induction xs) (auto simp: sum_list_insort_key)

lemma sum_list_take_le: "sum_list (map g (take n xs)) \<le> (sum_list (map g xs) :: nat)"
proof -
  have "sum_list (map g xs) = sum_list (map g (take n xs)) + sum_list (map g (drop n xs))"
    by (metis append_take_drop_id map_append sum_list_append)
  then show ?thesis by simp
qed

lemma source_groups_length: "length (source_groups rs) = length (remdups (map source rs))"
  by (simp add: source_groups_def)

lemma groupBy_take_sum_le:
  assumes "prisma_groupBy_source d (Some n) = Inr gs"
  shows "sum_list (map snd gs) \<le> length (rows d)" "length gs \<le> n"
  using assms sum_list_take_le[of snd n "sort_key (\<lambda>g. - int (snd g)) (source_groups (rows d))"]
  by (auto simp: prisma_groupBy_source_def sum_list_sort_key source_groups_sum
           split: option.splits)

lemma groupBy_take_sum_eq:
  assumes "prisma_groupBy_source d (Some n) = Inr gs" "length (remdups (map source (rows d))) \<le> n"
  shows "sum_list (map snd gs) = length (rows d)"
  using assms
  by (auto simp: prisma_groupBy_source_def sum_list_sort_key source_groups_sum source_groups_length
           split: option.splits)

lemma groupBy_all_sum:
  assumes "prisma_groupBy_source d None = Inr gs"
  shows "sum_list (map snd gs) = length (rows d)"
  using assms
  by (auto simp: prisma_groupBy_source_def sum_list_sort_key source_groups_sum
           split: option.splits)

lemma getDashboardStats_Inr:
  assumes "getDashboardStats now midnight d = Inr st"
  shows "fault d = None" "total st = length (rows d)"
    "prisma_groupBy_source d (Some 10) = Inr (sources st)"
    "getSignupsOverTime now d 30 = Inr (timeline st)"
  using assms
  by (auto simp: getDashboardStats_def prisma_count_def prisma_count_since_def
           split: sum.splits option.splits)

lemma source_groups_keys: "map fst (source_groups rs) = remdups (map source rs)"
  by (simp add: source_groups_def comp_def)

lemma source_groups_iff:
  "(s, c) \<in> set (source_groups rs) \<longleftrightarrow>
     s \<in> set (map source rs) \<and> c = length (filter (\<lambda>r. source r = s) rs)"
  by (auto simp: source_groups_def)

lemma source_groups_positive:
  assumes "(s, c) \<in> set (source_groups rs)" shows "0 < c"
proof -
  from assms have s: "s \<in> set (map source rs)" and c: "c = length (filter (\<lambda>r. source r = s) rs)"
    by (simp_all add: source_groups_iff)
  from s obtain r where "r \<in> set rs" "source r = s" by auto
  then have "filter (\<lambda>r. source r = s) rs \<noteq> []" by (auto simp: filter_empty_conv)
  then show ?thesis by (simp add: c)
qed

lemma distinct_fst_sort_key:
  assumes "distinct (map fst xs)"
  shows "distinct (map fst (sort_key k xs))"
proof -
  from assms have "distinct xs" "inj_on fst (set xs)" by (simp_all add: distinct_map)
  then show ?thesis by (simp add: distinct_map)
qed

lemma distinct_fst_take: "distinct (map fst xs) \<Longrightarrow> distinct (map fst (take n xs))"
  by (simp add: take_map[symmetric] del: take_map)

lemma sorted_desc_sort_key:
  "sorted_wrt (\<lambda>a b. snd b \<le> snd a) (sort_key (\<lambda>g. - int (snd g)) (xs :: ('a \<times> nat) list))"
proof -
  have "sorted (map (\<lambda>g. - int (snd g)) (sort_key (\<lambda>g. - int (snd g)) xs))"
    by (rule sorted_sort_key)
  then show ?thesis by (simp add: sorted_map)
qed

lemma sorted_wrt_take_drop:
  assumes "sorted_wrt P xs" "x \<in> set (take n xs)" "y \<in> set (drop n xs)"
  shows "P x y"
proof -
  have "sorted_wrt P (take n xs @ drop n xs)" using assms(1) by simp
  then show ?thesis using assms(2,3) by (simp only: sorted_wrt_append)
qed

lemma groupBy_take_largest:
  assumes "prisma_groupBy_source d (Some n) = Inr gs"
  shows "length gs = min n (length (remdups (map source (rows d))))"
    and "distinct (map fst gs)"
    and "sorted_wrt (\<lambda>a b. snd b \<le> snd a) gs"
    and "(s, c) \<in> set gs \<Longrightarrow> 0 < c \<and> c = length (filter (\<lambda>r. source r = s) (rows d))"
    and "s \<in> set (map source (rows d)) \<Longrightarrow> s \<notin> set (map fst gs) \<Longrightarrow> g \<in> set gs
           \<Longrightarrow> length (filter (\<lambda>r. source r = s) (rows d)) \<le> snd g"
proof -
  let ?ord = "sort_key (\<lambda>g. - int (snd g)) (source_groups (rows d))"
  from assms have gs: "gs = take n ?ord"
    by (auto simp: prisma_groupBy_source_def split: option.splits)
  show "length gs = min n (length (remdups (map source (rows d))))"
    by (simp add: gs source_groups_length min.commute)
  have dk: "distinct (map fst ?ord)"
    by (rule distinct_fst_sort_key) (simp add: source_groups_keys)
  show "distinct (map fst gs)"
    unfolding gs by (rule distinct_fst_take[OF dk])
  have so: "sorted_wrt (\<lambda>a b. snd b \<le> snd a) ?ord"
    by (rule sorted_desc_sort_key)
  show "sorted_wrt (\<lambda>a b. snd b \<le> snd a) gs"
    unfolding gs using so by (rule sorted_wrt_take)
  show "0 < c \<and> c = length (filter (\<lambda>r. source r = s) (rows d))" if "(s, c) \<in> set gs"
  proof -
    from that have "(s, c) \<in> set ?ord" unfolding gs by (rule in_set_takeD)
    then have m: "(s, c) \<in> set (source_groups (rows d))" by simp
    show ?thesis using source_groups_positive[OF m] m by (simp add: source_groups_iff)
  qed
  show "length (filter (\<lambda>r. source r = s) (rows d)) \<le> snd g"
    if s: "s \<in> set (map source (rows d))" and n: "s \<notin> set (map fst gs)" and g: "g \<in> set gs"
  proof -
    let ?p = "(s, length (filter (\<lambda>r. source r = s) (rows d)))"
    have "?p \<in> set (source_groups (rows d))" using s by (simp add: source_groups_iff)
    then have "?p \<in> set ?ord" by simp
    then have "?p \<in> set (take n ?ord) \<union> set (drop n ?ord)"
      by (metis append_take_drop_id set_append)
    moreover have "?p \<notin> set (take n ?ord)"
      using n unfolding gs by force
    ultimately have "?p \<in> set (drop n ?ord)" by simp
    from sorted_wrt_take_drop[OF so g[unfolded gs] this] show ?thesis by simp
  qed
qed

text \<open>
  C5, as stated, fails: with eleven records of eleven different sources (the absent one
  among them) the dashboard keeps ten buckets, whose counts sum to 10, and the total is 11,
  whichever of the equal buckets the store leaves out.
\<close>

theorem sources_sum_counterexample:
  "(case getDashboardStats 0 0
     \<lparr>rows = [\<lparr>row_id = 0, email = ''a@x.io'', source = Some ''a'', referrer = None, createdAt = 0\<rparr>,
              \<lparr>row_id = 1, email = ''b@x.io'', source = Some ''b'', referrer = None, createdAt = 0\<rparr>,
              \<lparr>row_id = 2, email = ''c@x.io'', source = Some ''c'', referrer = None, createdAt = 0\<rparr>,
              \<lparr>row_id = 3, email = ''d@x.io'', source = Some ''d'', referrer = None, createdAt = 0\<rparr>,
              \<lparr>row_id = 4, email = ''e@x.io'', source = Some ''e'', referrer = None, createdAt = 0\<rparr>,
              \<lparr>row_id = 5, email = ''f@x.io'', source = Some ''f'', referrer = None, createdAt = 0\<rparr>,
              \<lparr>row_id = 6, email = ''g@x.io'', source = Some ''g'', referrer = None, createdAt = 0\<rparr>,
              \<lparr>row_id = 7, email = ''h@x.io'', source = Some ''h'', referrer = None, createdAt = 0\<rparr>,
              \<lparr>row_id = 8, email = ''i@x.io'', source = Some ''i'', referrer = None, createdAt = 0\<rparr>,
              \<lparr>row_id = 9, email = ''j@x.io'', source = Some ''j'', referrer = None, createdAt = 0\<rparr>,
              \<lparr>row_id = 10, email = ''k@x.io'', source = None, referrer = None, createdAt = 0\<rparr>],
       fault = None, writes = 11\<rparr> of
      Inl t \<Rightarrow> None
    | Inr st \<Rightarrow> Some (total st, length (sources st), sum_list (map snd (sources st))))
   = Some (11, 10, 10)"
  by code_simp

text \<open>
  C5, amended. For every record set with at most 10 distinct \<^verbatim>\<open>source\<close> values (the absent
  source counted as one of them), the counts of \<^verbatim>\<open>bySource\<close>, summed over all buckets, equal
  the total count of all records. In general \<^verbatim>\<open>bySource\<close> holds only the 10 largest buckets
  (\<^verbatim>\<open>take: 10\<close>): as many buckets as there are distinct sources, up to 10, one for each of
  its sources and each with the number of that source's records, in descending order of
  count, and no bucket that is left out is larger than one that is kept; the sum of its
  counts is at most the total. The labels of \<^verbatim>\<open>referralData\<close> leave the counts as they
  are, and the grouping without a limit (\<^verbatim>\<open>getSignupsBySource\<close>) always sums to the total.
\<close>

theorem sources_sum_bounded:
  "(getDashboardStats now midnight d = Inr st
     \<longrightarrow> sum_list (map snd (sources st)) \<le> total st \<and>
         length (sources st) = min 10 (length (remdups (map source (rows d)))) \<and>
         distinct (map fst (sources st)) \<and>
         sorted_wrt (\<lambda>a b. snd b \<le> snd a) (sources st) \<and>
         (\<forall>s c. (s, c) \<in> set (sources st)
            \<longrightarrow> 0 < c \<and> c = length (filter (\<lambda>r. source r = s) (rows d))) \<and>
         (\<forall>s g. s \<in> set (map source (rows d)) \<and> s \<notin> set (map fst (sources st)) \<and>
                g \<in> set (sources st)
            \<longrightarrow> length (filter (\<lambda>r. source r = s) (rows d)) \<le> snd g) \<and>
         sum_list (map snd (referralData st)) = sum_list (map snd (sources st)) \<and>
         (length (remdups (map source (rows d))) \<le> 10
            \<longrightarrow> sum_list (map snd (sources st)) = total st)) \<and>
   (getSignupsBySource d = Inr bs \<longrightarrow> sum_list (map snd bs) = length (rows d))"
proof (intro conjI impI allI)
  assume a: "getDashboardStats now midnight d = Inr st"
  note g = getDashboardStats_Inr[OF a]
  note l = groupBy_take_largest[OF g(3)]
  show "sum_list (map snd (sources st)) \<le> total st"
    using groupBy_take_sum_le(1)[OF g(3)] g(2) by simp
  show "length (sources st) = min 10 (length (remdups (map source (rows d))))"
    by (rule l(1))
  show "distinct (map fst (sources st))"
    by (rule l(2))
  show "sorted_wrt (\<lambda>a b. snd b \<le> snd a) (sources st)"
    by (rule l(3))
  show "0 < c" if "(s, c) \<in> set (sources st)" for s c
    using l(4)[OF that] by (rule conjunct1)
  show "c = length (filter (\<lambda>r. source r = s) (rows d))" if "(s, c) \<in> set (sources st)" for s c
    using l(4)[OF that] by (rule conjunct2)
  show "length (filter (\<lambda>r. source r = s) (rows d)) \<le> snd g"
    if "s \<in> set (map source (rows d)) \<and> s \<notin> set (map fst (sources st)) \<and> g \<in> set (sources st)"
    for s g
    using that l(5)[of s g] by blast
  show "sum_list (map snd (referralData st)) = sum_list (map snd (sources st))"
    by (simp add: referralData_def comp_def)
  assume "length (remdups (map source (rows d))) \<le> 10"
  then show "sum_list (map snd (sources st)) = total st"
    using groupBy_take_sum_eq[OF g(3)] g(2) by simp
next
  assume "getSignupsBySource d = Inr bs"
  then obtain gs where gs: "prisma_groupBy_source d None = Inr gs"
    and bs: "bs = map (\<lambda>item. (source_label (fst item), snd item)) gs"
    by (auto simp: getSignupsBySource_def split: sum.splits)
  show "sum_list (map snd bs) = length (rows d)"
    using groupBy_all_sum[OF gs] by (simp add: bs comp_def)
qed

theorem sources_sum_bounded_witness:
  "getDashboardStats 0 0
     \<lparr>rows = [\<lparr>row_id = 0, email = ''a@x.io'', source = Some ''a'', referrer = None, createdAt = 0\<rparr>,
              \<lparr>row_id = 1, email = ''b@x.io'', source = None, referrer = None, createdAt = 0\<rparr>,
              \<lparr>row_id = 2, email = ''c@x.io'', source = Some ''a'', referrer = None, createdAt = 0\<rparr>],
       fault = None, writes = 3\<rparr>
   = Inr \<lparr>total = 3, today = 3, thisWeek = 3, sources = [(Some ''a'', 2), (None, 1)], timeline = [(0, 3)]\<rparr> \<and>
   sum_list (map snd (sources \<lparr>total = 3, today = 3, thisWeek = 3, sources = [(Some ''a'', 2), (None, 1)], timeline = [(0, 3)]\<rparr>)) = total \<lparr>total = 3, today = 3, thisWeek = 3, sources = [(Some ''a'', 2), (None, 1)], timeline = [(0, 3)]\<rparr> \<and>
   length (sources \<lparr>total = 3, today = 3, thisWeek = 3, sources = [(Some ''a'', 2), (None, 1)], timeline = [(0, 3)]\<rparr>)
     = min 10 (length (remdups (map source (rows
     \<lparr>rows = [\<lparr>row_id = 0, email = ''a@x.io'', source = Some ''a'', referrer = None, createdAt = 0\<rparr>,
              \<lparr>row_id = 1, email = ''b@x.io'', source = None, referrer = None, createdAt = 0\<rparr>,
              \<lparr>row_id = 2, email = ''c@x.io'', source = Some ''a'', referrer = None, createdAt = 0\<rparr>],
       fault = None, writes = 3\<rparr>)))) \<and>
   distinct (map fst (sources \<lparr>total = 3, today = 3, thisWeek = 3, sources = [(Some ''a'', 2), (None, 1)], timeline = [(0, 3)]\<rparr>)) \<and>
   sorted_wrt (\<lambda>a b. snd b \<le> snd a) (sources \<lparr>total = 3, today = 3, thisWeek = 3, sources = [(Some ''a'', 2), (None, 1)], timeline = [(0, 3)]\<rparr>) \<and>
   getSignupsBySource
     \<lparr>rows = [\<lparr>row_id = 0, email = ''a@x.io'', source = Some ''a'', referrer = None, createdAt = 0\<rparr>,
              \<lparr>row_id = 1, email = ''b@x.io'', source = None, referrer = None, createdAt = 0\<rparr>,
              \<lparr>row_id = 2, email = ''c@x.io'', source = Some ''a'', referrer = None, createdAt = 0\<rparr>],
       fault = None, writes = 3\<rparr>
   = Inr [(''a'', 2), (''Direct'', 1)] \<and>
   sum_list (map snd [(''a'', 2 :: nat), (''Direct'', 1)]) = 3"
proof -
  have e: "getDashboardStats 0 0
     \<lparr>rows = [\<lparr>row_id = 0, email = ''a@x.io'', source = Some ''a'', referrer = None, createdAt = 0\<rparr>,
              \<lparr>row_id = 1, email = ''b@x.io'', source = None, referrer = None, createdAt = 0\<rparr>,
              \<lparr>row_id = 2, email = ''c@x.io'', source = Some ''a'', referrer = None, createdAt = 0\<rparr>],
       fault = None, writes = 3\<rparr>
   = Inr \<lparr>total = 3, today = 3, thisWeek = 3, sources = [(Some ''a'', 2), (None, 1)], timeline = [(0, 3)]\<rparr>"
    by code_simp
  have b: "getSignupsBySource
     \<lparr>rows = [\<lparr>row_id = 0, email = ''a@x.io'', source = Some ''a'', referrer = None, createdAt = 0\<rparr>,
              \<lparr>row_id = 1, email = ''b@x.io'', source = None, referrer = None, createdAt = 0\<rparr>,
              \<lparr>row_id = 2, email = ''c@x.io'', source = Some ''a'', referrer = None, createdAt = 0\<rparr>],
       fault = None, writes = 3\<rparr>
   = Inr [(''a'', 2), (''Direct'', 1)]"
    by code_simp
  have r: "length (remdups (map source (rows
     \<lparr>rows = [\<lparr>row_id = 0, email = ''a@x.io'', source = Some ''a'', referrer = None, createdAt = 0\<rparr>,
              \<lparr>row_id = 1, email = ''b@x.io'', source = None, referrer = None, createdAt = 0\<rparr>,
              \<lparr>row_id = 2, email = ''c@x.io'', source = Some ''a'', referrer = None, createdAt = 0\<rparr>],
       fault = None, writes = 3\<rparr>))) \<le> 10"
    by simp
  have t: "sum_list (map snd [(''a'', 2 :: nat), (''Direct'', 1)]) = 3"
    by simp
  note T = sources_sum_bounded
    [of 0 0 "\<lparr>rows = [\<lparr>row_id = 0, email = ''a@x.io'', source = Some ''a'', referrer = None, createdAt = 0\<rparr>,
              \<lparr>row_id = 1, email = ''b@x.io'', source = None, referrer = None, createdAt = 0\<rparr>,
              \<lparr>row_id = 2, email = ''c@x.io'', source = Some ''a'', referrer = None, createdAt = 0\<rparr>],
       fault = None, writes = 3\<rparr>"
        "\<lparr>total = 3, today = 3, thisWeek = 3, sources = [(Some ''a'', 2), (None, 1)], timeline = [(0, 3)]\<rparr>"
        "[(''a'', 2), (''Direct'', 1)]"]
  from T e b r t show ?thesis
    by blast
qed

lemma bump_keys:
  "map fst (bump acc k) = (if k \<in> set (map fst acc) then map fst acc else map fst acc @ [k])"
  by (induction acc k rule: bump.induct) auto

lemma bump_lookup:
  "map_of (bump acc k) = (map_of acc)(k \<mapsto> (case map_of acc k of None \<Rightarrow> 1 | Some c \<Rightarrow> c + 1))"
  by (induction acc k rule: bump.induct) (auto simp: fun_eq_iff)

lemma foldl_bump_keys_set: "set (map fst (foldl bump [] ks)) = set ks"
  by (induction ks rule: rev_induct) (auto simp: bump_keys)

lemma foldl_bump_keys_distinct: "distinct (map fst (foldl bump [] ks))"
  by (induction ks rule: rev_induct) (auto simp: bump_keys)

lemma foldl_bump_lookup:
  "map_of (foldl bump [] ks) k =
     (if k \<in> set ks then Some (length (filter (\<lambda>x. x = k) ks)) else None)"
proof (induction ks rule: rev_induct)
  case Nil
  then show ?case by simp
next
  case (snoc x xs)
  then show ?case by (auto simp: bump_lookup filter_empty_conv)
qed

lemma foldl_bump_sorted:
  "sorted ks \<Longrightarrow> sorted_wrt (<) (map fst (foldl bump [] ks))"
proof (induction ks rule: rev_induct)
  case Nil
  then show ?case by simp
next
  case (snoc x xs)
  then have s: "sorted xs" and le: "\<forall>y \<in> set xs. y \<le> x"
    by (auto simp: sorted_append)
  show ?case
  proof (cases "x \<in> set xs")
    case True
    then have "x \<in> set (map fst (foldl bump [] xs))"
      using foldl_bump_keys_set[of xs] by auto
    then show ?thesis using snoc.IH[OF s] by (simp add: bump_keys)
  next
    case False
    then have n: "x \<notin> set (map fst (foldl bump [] xs))"
      using foldl_bump_keys_set[of xs] by auto
    have "\<forall>y \<in> set xs. y < x" using le False by (auto simp: order_less_le)
    then have "\<forall>y \<in> set (map fst (foldl bump [] xs)). y < x"
      using foldl_bump_keys_set[of xs] by auto
    then show ?thesis
      using snoc.IH[OF s] n by (simp add: bump_keys sorted_wrt_append)
  qed
qed

lemma foldl_bump_sum: "sum_list (map snd (foldl bump acc ks)) = sum_list (map snd acc) + length ks"
proof (induction ks arbitrary: acc)
  case Nil
  then show ?case by simp
next
  case (Cons k ks)
  have "sum_list (map snd (bump acc k)) = sum_list (map snd acc) + 1" for acc
    by (induction acc k rule: bump.induct) auto
  then show ?case using Cons by simp
qed

lemma day_ms_pos: "0 < day_ms"
  by (simp add: day_ms_def)

lemma iso_date_mono: "s \<le> t \<Longrightarrow> iso_date s \<le> iso_date t"
  by (simp add: iso_date_def zdiv_mono1 day_ms_pos)

lemma iso_date_shift: "iso_date (t - n * day_ms) = iso_date t - n"
proof -
  have "t - n * day_ms = t + (- n) * day_ms" by simp
  then have "(t - n * day_ms) div day_ms = (t + (- n) * day_ms) div day_ms" by simp
  also have "\<dots> = - n + t div day_ms"
    using day_ms_pos by (subst div_mult_self1) simp_all
  finally show ?thesis by (simp add: iso_date_def)
qed

lemma sorted_map_iso_date: "sorted ts \<Longrightarrow> sorted (map iso_date ts)"
  by (induction ts) (auto simp: iso_date_mono)

lemma distinct_in_range_length:
  fixes xs :: "int list"
  assumes "distinct xs" "set xs \<subseteq> {a..b}"
  shows "length xs \<le> nat (b - a + 1)"
proof -
  have "length xs = card (set xs)" using assms(1) by (simp add: distinct_card)
  also have "\<dots> \<le> card {a..b}" using assms(2) by (intro card_mono) simp_all
  also have "\<dots> = nat (b - a + 1)" by simp
  finally show ?thesis .
qed

lemma getSignupsOverTime_eq:
  assumes "fault d = None"
  shows "getSignupsOverTime now d days =
     Inr (foldl bump []
            (map iso_date (sort (map createdAt
               (filter (\<lambda>r. now - days * day_ms \<le> createdAt r) (rows d))))))"
  using assms by (simp add: getSignupsOverTime_def prisma_findMany_since_def foldl_map)

lemma getSignupsOverTime_Inr:
  assumes "getSignupsOverTime now d days = Inr series"
  shows "fault d = None"
  using assms by (auto simp: getSignupsOverTime_def prisma_findMany_since_def split: option.splits)

lemma count_of_day:
  "length (filter (\<lambda>x. x = k) (map iso_date (sort (map createdAt (filter W rs)))))
     = length (filter (\<lambda>r. W r \<and> iso_date (createdAt r) = k) rs)"
proof -
  have "filter (\<lambda>x. x = k) (map iso_date (sort (map createdAt (filter W rs))))
      = map iso_date (filter (\<lambda>t. iso_date t = k) (sort (map createdAt (filter W rs))))"
    by (simp add: filter_map comp_def)
  also have "filter (\<lambda>t. iso_date t = k) (sort (map createdAt (filter W rs)))
      = sort (filter (\<lambda>t. iso_date t = k) (map createdAt (filter W rs)))"
    by (simp add: filter_sort)
  finally show ?thesis by (simp add: filter_map comp_def conj_commute)
qed


lemma member_count: "k \<in> set ks \<longleftrightarrow> 0 < length (filter (\<lambda>x. x = k) ks)"
  by (induction ks) auto

lemma series_member:
  assumes "fault d = None"
  shows "(day, c) \<in> set (foldl bump []
            (map iso_date (sort (map createdAt
               (filter (\<lambda>r. since \<le> createdAt r) (rows d))))))
     \<longleftrightarrow> 0 < c \<and>
         c = length (filter (\<lambda>r. since \<le> createdAt r \<and> iso_date (createdAt r) = day) (rows d))"
  (is "(day, c) \<in> set (foldl bump [] ?ks) \<longleftrightarrow> 0 < c \<and> c = ?n")
proof -
  have n: "length (filter (\<lambda>x. x = day) ?ks) = ?n"
    by (rule count_of_day)
  have m: "day \<in> set ?ks \<longleftrightarrow> 0 < ?n"
    using member_count[of day ?ks] by (simp only: n)
  have "(day, c) \<in> set (foldl bump [] ?ks) \<longleftrightarrow> map_of (foldl bump [] ?ks) day = Some c"
    using foldl_bump_keys_distinct[of ?ks] by simp
  also have "\<dots> \<longleftrightarrow> day \<in> set ?ks \<and> c = length (filter (\<lambda>x. x = day) ?ks)"
    by (simp only: foldl_bump_lookup) auto
  also have "\<dots> \<longleftrightarrow> 0 < ?n \<and> c = ?n"
    by (simp only: n m)
  finally show ?thesis by auto
qed

lemma series_length:
  assumes "\<forall>r \<in> set (rows d). createdAt r \<le> now" "0 \<le> days"
  shows "length (foldl bump []
            (map iso_date (sort (map createdAt
               (filter (\<lambda>r. now - days * day_ms \<le> createdAt r) (rows d))))))
         \<le> nat days + 1"
  (is "length (foldl bump [] ?ks) \<le> _")
proof -
  have "iso_date now - days \<le> iso_date (createdAt r) \<and> iso_date (createdAt r) \<le> iso_date now"
    if "r \<in> set (rows d)" "now - days * day_ms \<le> createdAt r" for r
  proof -
    have "iso_date (now - days * day_ms) \<le> iso_date (createdAt r)"
      using that(2) by (rule iso_date_mono)
    moreover have "iso_date (createdAt r) \<le> iso_date now"
      using assms(1) that(1) by (simp add: iso_date_mono)
    ultimately show ?thesis by (simp add: iso_date_shift)
  qed
  then have "set ?ks \<subseteq> {iso_date now - days .. iso_date now}"
    by auto
  then have "set (map fst (foldl bump [] ?ks)) \<subseteq> {iso_date now - days .. iso_date now}"
    by (simp only: foldl_bump_keys_set)
  from distinct_in_range_length[OF foldl_bump_keys_distinct this]
  show ?thesis using assms(2) by simp
qed

text \<open>
  C4, as stated, fails: with one record two days ago and one today the timeline has two
  entries and no entry for the day between them, and on an empty store it has none.
\<close>

theorem timeline_counterexample:
  "getDashboardStats 2592000000 2592000000
     \<lparr>rows = [\<lparr>row_id = 0, email = ''a@x.io'', source = None, referrer = None,
                createdAt = 2419200000\<rparr>,
              \<lparr>row_id = 1, email = ''b@x.io'', source = None, referrer = None,
                createdAt = 2592000000\<rparr>],
       fault = None, writes = 2\<rparr>
   = Inr \<lparr>total = 2, today = 1, thisWeek = 2, sources = [(None, 2)],
           timeline = [(28, 1), (30, 1)]\<rparr> \<and>
   length [(28 :: int, 1 :: nat), (30, 1)] = 2 \<and>
   getSignupsOverTime 2592000000 \<lparr>rows = [], fault = None, writes = 0\<rparr> 30 = Inr []"
  by code_simp


text \<open>
  C4, amended. For every record set, the timeline of the dashboard is the result of
  \<^verbatim>\<open>getSignupsOverTime(30)\<close>, and \<^verbatim>\<open>getSignupsOverTime(days)\<close> holds one (date, count) entry for
  each UTC calendar day on which at least one record of the trailing window was created,
  with the number of those records as its count, ordered chronologically ascending; a day
  without signups has no entry. The counts sum to the number of records in the window, and
  when no record is dated after now there are at most \<open>days + 1\<close> entries.
\<close>

theorem timeline_days_with_signups:
  "(getSignupsOverTime now d days = Inr series
     \<longrightarrow> sorted_wrt (<) (map fst series) \<and>
         (\<forall>day c. (day, c) \<in> set series \<longleftrightarrow>
            0 < c \<and>
            c = length (filter (\<lambda>r. now - days * day_ms \<le> createdAt r \<and>
                                     iso_date (createdAt r) = day) (rows d))) \<and>
         sum_list (map snd series)
           = length (filter (\<lambda>r. now - days * day_ms \<le> createdAt r) (rows d)) \<and>
         ((\<forall>r \<in> set (rows d). createdAt r \<le> now) \<and> 0 \<le> days
            \<longrightarrow> length series \<le> nat days + 1)) \<and>
   (getDashboardStats now midnight d = Inr st \<longrightarrow> getSignupsOverTime now d 30 = Inr (timeline st))"
proof (intro conjI impI allI)
  assume a: "getSignupsOverTime now d days = Inr series"
  note f = getSignupsOverTime_Inr[OF a]
  have e: "series = foldl bump []
            (map iso_date (sort (map createdAt
               (filter (\<lambda>r. now - days * day_ms \<le> createdAt r) (rows d)))))"
    using a getSignupsOverTime_eq[OF f, of now days] by simp
  show "sorted_wrt (<) (map fst series)"
    unfolding e by (rule foldl_bump_sorted) (simp add: sorted_map_iso_date)
  show "(day, c) \<in> set series \<longleftrightarrow>
            0 < c \<and>
            c = length (filter (\<lambda>r. now - days * day_ms \<le> createdAt r \<and>
                                     iso_date (createdAt r) = day) (rows d))" for day c
    unfolding e by (rule series_member[OF f])
  show "sum_list (map snd series)
           = length (filter (\<lambda>r. now - days * day_ms \<le> createdAt r) (rows d))"
    unfolding e by (simp add: foldl_bump_sum)
  assume "(\<forall>r \<in> set (rows d). createdAt r \<le> now) \<and> 0 \<le> days"
  then show "length series \<le> nat days + 1"
    unfolding e using series_length[of d now days] by simp
next
  assume "getDashboardStats now midnight d = Inr st"
  then show "getSignupsOverTime now d 30 = Inr (timeline st)"
    by (rule getDashboardStats_Inr(4))
qed

theorem timeline_days_with_signups_witness:
  "getSignupsOverTime 2592000000
     \<lparr>rows = [\<lparr>row_id = 0, email = ''a@x.io'', source = None, referrer = None,
                createdAt = 2419200000\<rparr>,
              \<lparr>row_id = 1, email = ''b@x.io'', source = None, referrer = None,
                createdAt = 2592000000\<rparr>],
       fault = None, writes = 2\<rparr> 30
   = Inr [(28, 1), (30, 1)] \<and>
   sorted_wrt (<) (map fst [(28 :: int, 1 :: nat), (30, 1)]) \<and>
   ((29, 0) \<in> set [(28 :: int, 1 :: nat), (30, 1)] \<longleftrightarrow> (0 :: nat) < 0 \<and>
      0 = length (filter (\<lambda>r. 2592000000 - 30 * day_ms \<le> createdAt r \<and>
                                     iso_date (createdAt r) = 29) (rows
     \<lparr>rows = [\<lparr>row_id = 0, email = ''a@x.io'', source = None, referrer = None,
                createdAt = 2419200000\<rparr>,
              \<lparr>row_id = 1, email = ''b@x.io'', source = None, referrer = None,
                createdAt = 2592000000\<rparr>],
       fault = None, writes = 2\<rparr>))) \<and>
   sum_list (map snd [(28 :: int, 1 :: nat), (30, 1)])
     = length (filter (\<lambda>r. 2592000000 - 30 * day_ms \<le> createdAt r) (rows
     \<lparr>rows = [\<lparr>row_id = 0, email = ''a@x.io'', source = None, referrer = None,
                createdAt = 2419200000\<rparr>,
              \<lparr>row_id = 1, email = ''b@x.io'', source = None, referrer = None,
                createdAt = 2592000000\<rparr>],
       fault = None, writes = 2\<rparr>)) \<and>
   length [(28 :: int, 1 :: nat), (30, 1)] \<le> nat 30 + 1 \<and>
   getSignupsOverTime 2592000000
     \<lparr>rows = [\<lparr>row_id = 0, email = ''a@x.io'', source = None, referrer = None,
                createdAt = 2419200000\<rparr>,
              \<lparr>row_id = 1, email = ''b@x.io'', source = None, referrer = None,
                createdAt = 2592000000\<rparr>],
       fault = None, writes = 2\<rparr> 30
   = Inr (timeline \<lparr>total = 2, today = 1, thisWeek = 2, sources = [(None, 2)],
           timeline = [(28, 1), (30, 1)]\<rparr>)"
proof -
  have e: "getSignupsOverTime 2592000000
     \<lparr>rows = [\<lparr>row_id = 0, email = ''a@x.io'', source = None, referrer = None,
                createdAt = 2419200000\<rparr>,
              \<lparr>row_id = 1, email = ''b@x.io'', source = None, referrer = None,
                createdAt = 2592000000\<rparr>],
       fault = None, writes = 2\<rparr> 30
   = Inr [(28, 1), (30, 1)]"
    by code_simp
  have g: "getDashboardStats 2592000000 2592000000
     \<lparr>rows = [\<lparr>row_id = 0, email = ''a@x.io'', source = None, referrer = None,
                createdAt = 2419200000\<rparr>,
              \<lparr>row_id = 1, email = ''b@x.io'', source = None, referrer = None,
                createdAt = 2592000000\<rparr>],
       fault = None, writes = 2\<rparr>
   = Inr \<lparr>total = 2, today = 1, thisWeek = 2, sources = [(None, 2)],
           timeline = [(28, 1), (30, 1)]\<rparr>"
    by code_simp
  have h: "(\<forall>r \<in> set (rows
     \<lparr>rows = [\<lparr>row_id = 0, email = ''a@x.io'', source = None, referrer = None,
                createdAt = 2419200000\<rparr>,
              \<lparr>row_id = 1, email = ''b@x.io'', source = None, referrer = None,
                createdAt = 2592000000\<rparr>],
       fault = None, writes = 2\<rparr>). createdAt r \<le> 2592000000) \<and> (0 :: int) \<le> 30"
    by simp
  note T = timeline_days_with_signups
    [of 2592000000 "\<lparr>rows = [\<lparr>row_id = 0, email = ''a@x.io'', source = None, referrer = None,
                createdAt = 2419200000\<rparr>,
              \<lparr>row_id = 1, email = ''b@x.io'', source = None, referrer = None,
                createdAt = 2592000000\<rparr>],
       fault = None, writes = 2\<rparr>" 30 "[(28, 1), (30, 1)]" 2592000000
        "\<lparr>total = 2, today = 1, thisWeek = 2, sources = [(None, 2)],
           timeline = [(28, 1), (30, 1)]\<rparr>"]
  from T e g h show ?thesis
    by blast
qed

section \<open>Properties of the Admin Access Guard\<close>

lemma used_append:
  "used (lim @ [(i, t)]) ident now =
     used lim ident now + (if i = ident \<and> now - window_ms < t then 1 else 0)"
  by (simp add: used_def)

lemma login_limited:
  assumes "threshold \<le> used (fst st) (client_ip fw) now"
  shows "login ev st fw fd now = (Error ''Too many attempts. Try again in 15 minutes.'', st)"
  using assms by (simp add: login_def limit_def Let_def)

lemma login_admitted:
  assumes "\<not> threshold \<le> used (fst st) (client_ip fw) now"
  shows "login ev st fw fd now =
     (if strict_eq (username_field fd) (ADMIN_USERNAME ev) \<and>
         strict_eq (password_field fd) (ADMIN_PASSWORD ev)
      then (Redirect ''/admin/dashboard'', fst st @ [(client_ip fw, now)],
            \<lparr>isLoggedIn = True, username = username_field fd\<rparr>)
      else (Error ''Invalid credentials'', fst st @ [(client_ip fw, now)], snd st))"
  using assms by (simp add: login_def limit_def Let_def)

lemma login_cases:
  obtains (limited) "threshold \<le> used (fst st) (client_ip fw) now"
      "login ev st fw fd now = (Error ''Too many attempts. Try again in 15 minutes.'', st)"
  | (granted) "\<not> threshold \<le> used (fst st) (client_ip fw) now"
      "login ev st fw fd now = (Redirect ''/admin/dashboard'', fst st @ [(client_ip fw, now)],
            \<lparr>isLoggedIn = True, username = username_field fd\<rparr>)"
  | (refused) "\<not> threshold \<le> used (fst st) (client_ip fw) now"
      "login ev st fw fd now = (Error ''Invalid credentials'', fst st @ [(client_ip fw, now)], snd st)"
  using login_limited[of st fw now ev fd] login_admitted[of st fw now ev fd]
  by (cases "threshold \<le> used (fst st) (client_ip fw) now") (auto split: if_splits)

lemma login_step_used:
  assumes "login ev st fw fd t = (r, st')"
  shows "used (fst st) ip now +
           (if client_ip fw = ip \<and> r = Error ''Invalid credentials'' \<and> now - window_ms < t
            then 1 else 0)
         \<le> used (fst st') ip now"
  using assms by (cases rule: login_cases[of st fw t ev fd]) (auto simp: used_append)

lemma login_all_used:
  assumes "login_all ev st calls = (rs, st')"
  shows "used (fst st) ip now +
           length (filter (\<lambda>cr. client_ip (fst (fst cr)) = ip \<and>
                                snd cr = Error ''Invalid credentials'' \<and>
                                now - window_ms < snd (snd (fst cr))) (zip calls rs))
         \<le> used (fst st') ip now"
  using assms
proof (induction calls arbitrary: st rs)
  case Nil
  then show ?case by simp
next
  case (Cons c calls)
  obtain fw fd t where c: "c = (fw, fd, t)" by (cases c)
  obtain r st1 where l: "login ev st fw fd t = (r, st1)" by (cases "login ev st fw fd t")
  obtain rs1 st2 where a: "login_all ev st1 calls = (rs1, st2)" by (cases "login_all ev st1 calls")
  from Cons.prems have rs: "rs = r # rs1" and st': "st' = st2"
    by (simp_all add: c l a)
  from Cons.IH[OF a[folded st']] login_step_used[OF l, of ip now]
  show ?case by (auto simp add: rs c split: if_splits)
qed


text \<open>
  C6. For every client address with at least 5 failed credential checks within the trailing
  window of 15 minutes in the history of login calls, the next login call from that address
  answers the rate-limit error and leaves limiter and session as they were, whatever the
  submitted credentials are, the correct ones included: the result does not depend on the
  form, so no credential is compared.
\<close>

theorem rate_limited_after_failures:
  "threshold \<le> length (filter (\<lambda>cr. client_ip (fst (fst cr)) = client_ip fw \<and>
                                    snd cr = Error ''Invalid credentials'' \<and>
                                    now - window_ms < snd (snd (fst cr)))
                        (zip calls (fst (login_all ev st0 calls))))
   \<longrightarrow> login ev (snd (login_all ev st0 calls)) fw fd now
         = (Error ''Too many attempts. Try again in 15 minutes.'', snd (login_all ev st0 calls))"
proof
  assume a: "threshold \<le> length (filter (\<lambda>cr. client_ip (fst (fst cr)) = client_ip fw \<and>
                                    snd cr = Error ''Invalid credentials'' \<and>
                                    now - window_ms < snd (snd (fst cr)))
                        (zip calls (fst (login_all ev st0 calls))))"
  obtain rs st' where l: "login_all ev st0 calls = (rs, st')" by (cases "login_all ev st0 calls")
  from login_all_used[OF l, of "client_ip fw" now] a
  have "threshold \<le> used (fst st') (client_ip fw) now" by (simp add: l)
  then show "login ev (snd (login_all ev st0 calls)) fw fd now
         = (Error ''Too many attempts. Try again in 15 minutes.'', snd (login_all ev st0 calls))"
    by (simp add: l login_limited)
qed

theorem rate_limited_after_failures_witness:
  "fst (login_all \<lparr>ADMIN_USERNAME = Some ''admin'', ADMIN_PASSWORD = Some ''secret''\<rparr>
     ([], \<lparr>isLoggedIn = False, username = None\<rparr>)
     [(Some ''10.0.0.1'', \<lparr>username_field = Some ''admin'', password_field = Some ''wrong''\<rparr>, 0),
      (Some ''10.0.0.1'', \<lparr>username_field = Some ''admin'', password_field = Some ''wrong''\<rparr>, 60000),
      (Some ''10.0.0.1'', \<lparr>username_field = Some ''admin'', password_field = Some ''wrong''\<rparr>, 120000),
      (Some ''10.0.0.1'', \<lparr>username_field = Some ''admin'', password_field = Some ''wrong''\<rparr>, 180000),
      (Some ''10.0.0.1'', \<lparr>username_field = Some ''admin'', password_field = Some ''wrong''\<rparr>, 240000)])
   = [Error ''Invalid credentials'', Error ''Invalid credentials'', Error ''Invalid credentials'',
      Error ''Invalid credentials'', Error ''Invalid credentials''] \<and>
   login \<lparr>ADMIN_USERNAME = Some ''admin'', ADMIN_PASSWORD = Some ''secret''\<rparr>
     (snd (login_all \<lparr>ADMIN_USERNAME = Some ''admin'', ADMIN_PASSWORD = Some ''secret''\<rparr>
       ([], \<lparr>isLoggedIn = False, username = None\<rparr>)
       [(Some ''10.0.0.1'', \<lparr>username_field = Some ''admin'', password_field = Some ''wrong''\<rparr>, 0),
      (Some ''10.0.0.1'', \<lparr>username_field = Some ''admin'', password_field = Some ''wrong''\<rparr>, 60000),
      (Some ''10.0.0.1'', \<lparr>username_field = Some ''admin'', password_field = Some ''wrong''\<rparr>, 120000),
      (Some ''10.0.0.1'', \<lparr>username_field = Some ''admin'', password_field = Some ''wrong''\<rparr>, 180000),
      (Some ''10.0.0.1'', \<lparr>username_field = Some ''admin'', password_field = Some ''wrong''\<rparr>, 240000)]))
     (Some ''10.0.0.1'') \<lparr>username_field = Some ''admin'', password_field = Some ''secret''\<rparr> 300000
   = (Error ''Too many attempts. Try again in 15 minutes.'',
      [(''10.0.0.1'', 0), (''10.0.0.1'', 60000), (''10.0.0.1'', 120000), (''10.0.0.1'', 180000), (''10.0.0.1'', 240000)],
      \<lparr>isLoggedIn = False, username = None\<rparr>)"
proof -
  have e: "login_all \<lparr>ADMIN_USERNAME = Some ''admin'', ADMIN_PASSWORD = Some ''secret''\<rparr>
     ([], \<lparr>isLoggedIn = False, username = None\<rparr>)
     [(Some ''10.0.0.1'', \<lparr>username_field = Some ''admin'', password_field = Some ''wrong''\<rparr>, 0),
      (Some ''10.0.0.1'', \<lparr>username_field = Some ''admin'', password_field = Some ''wrong''\<rparr>, 60000),
      (Some ''10.0.0.1'', \<lparr>username_field = Some ''admin'', password_field = Some ''wrong''\<rparr>, 120000),
      (Some ''10.0.0.1'', \<lparr>username_field = Some ''admin'', password_field = Some ''wrong''\<rparr>, 180000),
      (Some ''10.0.0.1'', \<lparr>username_field = Some ''admin'', password_field = Some ''wrong''\<rparr>, 240000)]
   = ([Error ''Invalid credentials'', Error ''Invalid credentials'', Error ''Invalid credentials'',
      Error ''Invalid credentials'', Error ''Invalid credentials''],
      [(''10.0.0.1'', 0), (''10.0.0.1'', 60000), (''10.0.0.1'', 120000), (''10.0.0.1'', 180000), (''10.0.0.1'', 240000)],
      \<lparr>isLoggedIn = False, username = None\<rparr>)"
    by code_simp
  have h: "threshold \<le> length (filter (\<lambda>cr. client_ip (fst (fst cr)) = client_ip (Some ''10.0.0.1'') \<and>
                                    snd cr = Error ''Invalid credentials'' \<and>
                                    300000 - window_ms < snd (snd (fst cr)))
       (zip [(Some ''10.0.0.1'', \<lparr>username_field = Some ''admin'', password_field = Some ''wrong''\<rparr>, 0),
      (Some ''10.0.0.1'', \<lparr>username_field = Some ''admin'', password_field = Some ''wrong''\<rparr>, 60000),
      (Some ''10.0.0.1'', \<lparr>username_field = Some ''admin'', password_field = Some ''wrong''\<rparr>, 120000),
      (Some ''10.0.0.1'', \<lparr>username_field = Some ''admin'', password_field = Some ''wrong''\<rparr>, 180000),
      (Some ''10.0.0.1'', \<lparr>username_field = Some ''admin'', password_field = Some ''wrong''\<rparr>, 240000)]
          (fst (login_all \<lparr>ADMIN_USERNAME = Some ''admin'', ADMIN_PASSWORD = Some ''secret''\<rparr>
     ([], \<lparr>isLoggedIn = False, username = None\<rparr>)
     [(Some ''10.0.0.1'', \<lparr>username_field = Some ''admin'', password_field = Some ''wrong''\<rparr>, 0),
      (Some ''10.0.0.1'', \<lparr>username_field = Some ''admin'', password_field = Some ''wrong''\<rparr>, 60000),
      (Some ''10.0.0.1'', \<lparr>username_field = Some ''admin'', password_field = Some ''wrong''\<rparr>, 120000),
      (Some ''10.0.0.1'', \<lparr>username_field = Some ''admin'', password_field = Some ''wrong''\<rparr>, 180000),
      (Some ''10.0.0.1'', \<lparr>username_field = Some ''admin'', password_field = Some ''wrong''\<rparr>, 240000)]))))"
    unfolding e by (simp add: threshold_def window_ms_def client_ip_def)
  note T = rate_limited_after_failures
    [of "Some ''10.0.0.1''" 300000
        "[(Some ''10.0.0.1'', \<lparr>username_field = Some ''admin'', password_field = Some ''wrong''\<rparr>, 0),
      (Some ''10.0.0.1'', \<lparr>username_field = Some ''admin'', password_field = Some ''wrong''\<rparr>, 60000),
      (Some ''10.0.0.1'', \<lparr>username_field = Some ''admin'', password_field = Some ''wrong''\<rparr>, 120000),
      (Some ''10.0.0.1'', \<lparr>username_field = Some ''admin'', password_field = Some ''wrong''\<rparr>, 180000),
      (Some ''10.0.0.1'', \<lparr>username_field = Some ''admin'', password_field = Some ''wrong''\<rparr>, 240000)]"
        "\<lparr>ADMIN_USERNAME = Some ''admin'', ADMIN_PASSWORD = Some ''secret''\<rparr>"
        "([], \<lparr>isLoggedIn = False, username = None\<rparr>)"
        "\<lparr>username_field = Some ''admin'', password_field = Some ''secret''\<rparr>"]
  from T h e show ?thesis by simp
qed


text \<open>
  C7, as stated, fails: after four failed attempts and a successful one the limiter counts
  five attempts for the address, and the next attempt with the correct credentials is
  refused.
\<close>

theorem counter_reset_counterexample:
  "login_all \<lparr>ADMIN_USERNAME = Some ''admin'', ADMIN_PASSWORD = Some ''secret''\<rparr>
     ([], \<lparr>isLoggedIn = False, username = None\<rparr>)
     [(Some ''10.0.0.1'', \<lparr>username_field = Some ''admin'', password_field = Some ''wrong''\<rparr>, 0),
      (Some ''10.0.0.1'', \<lparr>username_field = Some ''admin'', password_field = Some ''wrong''\<rparr>, 60000),
      (Some ''10.0.0.1'', \<lparr>username_field = Some ''admin'', password_field = Some ''wrong''\<rparr>, 120000),
      (Some ''10.0.0.1'', \<lparr>username_field = Some ''admin'', password_field = Some ''wrong''\<rparr>, 180000),
      (Some ''10.0.0.1'', \<lparr>username_field = Some ''admin'', password_field = Some ''secret''\<rparr>, 240000)]
   = ([Error ''Invalid credentials'', Error ''Invalid credentials'', Error ''Invalid credentials'',
       Error ''Invalid credentials'', Redirect ''/admin/dashboard''],
      [(''10.0.0.1'', 0), (''10.0.0.1'', 60000), (''10.0.0.1'', 120000), (''10.0.0.1'', 180000), (''10.0.0.1'', 240000)],
      \<lparr>isLoggedIn = True, username = Some ''admin''\<rparr>) \<and>
   used [(''10.0.0.1'', 0), (''10.0.0.1'', 60000), (''10.0.0.1'', 120000), (''10.0.0.1'', 180000), (''10.0.0.1'', 240000)] ''10.0.0.1'' 300000 = 5 \<and>
   login \<lparr>ADMIN_USERNAME = Some ''admin'', ADMIN_PASSWORD = Some ''secret''\<rparr>
     ([(''10.0.0.1'', 0), (''10.0.0.1'', 60000), (''10.0.0.1'', 120000), (''10.0.0.1'', 180000), (''10.0.0.1'', 240000)],
      \<lparr>isLoggedIn = True, username = Some ''admin''\<rparr>)
     (Some ''10.0.0.1'') \<lparr>username_field = Some ''admin'', password_field = Some ''secret''\<rparr> 300000
   = (Error ''Too many attempts. Try again in 15 minutes.'',
      [(''10.0.0.1'', 0), (''10.0.0.1'', 60000), (''10.0.0.1'', 120000), (''10.0.0.1'', 180000), (''10.0.0.1'', 240000)],
      \<lparr>isLoggedIn = True, username = Some ''admin''\<rparr>)"
  by code_simp

lemma window_ms_pos: "0 < window_ms"
  by (simp add: window_ms_def)

text \<open>
  C7, amended. The limiter is consulted before the credential check, so the count of a
  clientId is incremented by every login call that the limiter admits, whether the
  credential check then fails or succeeds; a rejected call leaves it as it is; and no login
  call resets it: a successful authentication leaves the earlier attempts counted until
  they leave the window.
\<close>

theorem limiter_counts_admitted_attempts:
  "(fst (login ev st fw fd now) = Error ''Too many attempts. Try again in 15 minutes.''
      \<longrightarrow> snd (login ev st fw fd now) = st) \<and>
   (fst (login ev st fw fd now) \<noteq> Error ''Too many attempts. Try again in 15 minutes.''
      \<longrightarrow> fst (snd (login ev st fw fd now)) = fst st @ [(client_ip fw, now)] \<and>
          used (fst (snd (login ev st fw fd now))) (client_ip fw) now
            = used (fst st) (client_ip fw) now + 1) \<and>
   used (fst st) ip t \<le> used (fst (snd (login ev st fw fd now))) ip t"
  using window_ms_pos
  by (cases rule: login_cases[of st fw now ev fd]) (auto simp: used_append)

theorem limiter_counts_admitted_attempts_witness:
  "login \<lparr>ADMIN_USERNAME = Some ''admin'', ADMIN_PASSWORD = Some ''secret''\<rparr>
     ([], \<lparr>isLoggedIn = False, username = None\<rparr>)
     (Some ''10.0.0.1'') \<lparr>username_field = Some ''admin'', password_field = Some ''secret''\<rparr> 0
   = (Redirect ''/admin/dashboard'', [(''10.0.0.1'', 0)],
      \<lparr>isLoggedIn = True, username = Some ''admin''\<rparr>) \<and>
   used (fst (snd (login \<lparr>ADMIN_USERNAME = Some ''admin'', ADMIN_PASSWORD = Some ''secret''\<rparr>
     ([], \<lparr>isLoggedIn = False, username = None\<rparr>)
     (Some ''10.0.0.1'') \<lparr>username_field = Some ''admin'', password_field = Some ''secret''\<rparr> 0))) (client_ip (Some ''10.0.0.1'')) 0
   = used (fst ([], \<lparr>isLoggedIn = False, username = None\<rparr>)) (client_ip (Some ''10.0.0.1'')) 0 + 1 \<and>
   used (fst ([], \<lparr>isLoggedIn = False, username = None\<rparr>)) (client_ip (Some ''10.0.0.1'')) 0 = 0 \<and>
   login \<lparr>ADMIN_USERNAME = Some ''admin'', ADMIN_PASSWORD = Some ''secret''\<rparr>
     ([(''10.0.0.1'', 0), (''10.0.0.1'', 60000), (''10.0.0.1'', 120000), (''10.0.0.1'', 180000), (''10.0.0.1'', 240000)],
      \<lparr>isLoggedIn = False, username = None\<rparr>)
     (Some ''10.0.0.1'') \<lparr>username_field = Some ''admin'', password_field = Some ''secret''\<rparr> 300000
   = (Error ''Too many attempts. Try again in 15 minutes.'',
      [(''10.0.0.1'', 0), (''10.0.0.1'', 60000), (''10.0.0.1'', 120000), (''10.0.0.1'', 180000), (''10.0.0.1'', 240000)],
      \<lparr>isLoggedIn = False, username = None\<rparr>)"
proof -
  have e: "login \<lparr>ADMIN_USERNAME = Some ''admin'', ADMIN_PASSWORD = Some ''secret''\<rparr>
     ([], \<lparr>isLoggedIn = False, username = None\<rparr>)
     (Some ''10.0.0.1'') \<lparr>username_field = Some ''admin'', password_field = Some ''secret''\<rparr> 0
   = (Redirect ''/admin/dashboard'', [(''10.0.0.1'', 0)],
      \<lparr>isLoggedIn = True, username = Some ''admin''\<rparr>)"
    by code_simp
  have z: "used (fst ([], \<lparr>isLoggedIn = False, username = None\<rparr>)) (client_ip (Some ''10.0.0.1'')) 0 = 0"
    by (simp add: used_def)
  have f: "fst (login \<lparr>ADMIN_USERNAME = Some ''admin'', ADMIN_PASSWORD = Some ''secret''\<rparr>
     ([(''10.0.0.1'', 0), (''10.0.0.1'', 60000), (''10.0.0.1'', 120000), (''10.0.0.1'', 180000), (''10.0.0.1'', 240000)],
      \<lparr>isLoggedIn = False, username = None\<rparr>)
     (Some ''10.0.0.1'') \<lparr>username_field = Some ''admin'', password_field = Some ''secret''\<rparr> 300000)
   = Error ''Too many attempts. Try again in 15 minutes.''"
    by code_simp
  note A = limiter_counts_admitted_attempts
    [of "\<lparr>ADMIN_USERNAME = Some ''admin'', ADMIN_PASSWORD = Some ''secret''\<rparr>"
        "([], \<lparr>isLoggedIn = False, username = None\<rparr>)"
        "Some ''10.0.0.1''" "\<lparr>username_field = Some ''admin'', password_field = Some ''secret''\<rparr>" 0 "''10.0.0.1''" 0]
  note B = limiter_counts_admitted_attempts
    [of "\<lparr>ADMIN_USERNAME = Some ''admin'', ADMIN_PASSWORD = Some ''secret''\<rparr>"
        "([(''10.0.0.1'', 0), (''10.0.0.1'', 60000), (''10.0.0.1'', 120000), (''10.0.0.1'', 180000), (''10.0.0.1'', 240000)],
      \<lparr>isLoggedIn = False, username = None\<rparr>)"
        "Some ''10.0.0.1''" "\<lparr>username_field = Some ''admin'', password_field = Some ''secret''\<rparr>" 300000 "''10.0.0.1''" 0]
  have np: "fst (login \<lparr>ADMIN_USERNAME = Some ''admin'', ADMIN_PASSWORD = Some ''secret''\<rparr>
     ([], \<lparr>isLoggedIn = False, username = None\<rparr>)
     (Some ''10.0.0.1'') \<lparr>username_field = Some ''admin'', password_field = Some ''secret''\<rparr> 0)
   \<noteq> Error ''Too many attempts. Try again in 15 minutes.''"
    unfolding e by simp
  have 1: "used (fst (snd (login \<lparr>ADMIN_USERNAME = Some ''admin'', ADMIN_PASSWORD = Some ''secret''\<rparr>
     ([], \<lparr>isLoggedIn = False, username = None\<rparr>)
     (Some ''10.0.0.1'') \<lparr>username_field = Some ''admin'', password_field = Some ''secret''\<rparr> 0))) (client_ip (Some ''10.0.0.1'')) 0
   = used (fst ([], \<lparr>isLoggedIn = False, username = None\<rparr>)) (client_ip (Some ''10.0.0.1'')) 0 + 1"
    using A np by blast
  have 2: "login \<lparr>ADMIN_USERNAME = Some ''admin'', ADMIN_PASSWORD = Some ''secret''\<rparr>
     ([(''10.0.0.1'', 0), (''10.0.0.1'', 60000), (''10.0.0.1'', 120000), (''10.0.0.1'', 180000), (''10.0.0.1'', 240000)],
      \<lparr>isLoggedIn = False, username = None\<rparr>)
     (Some ''10.0.0.1'') \<lparr>username_field = Some ''admin'', password_field = Some ''secret''\<rparr> 300000
   = (Error ''Too many attempts. Try again in 15 minutes.'',
      [(''10.0.0.1'', 0), (''10.0.0.1'', 60000), (''10.0.0.1'', 120000), (''10.0.0.1'', 180000), (''10.0.0.1'', 240000)],
      \<lparr>isLoggedIn = False, username = None\<rparr>)"
    using B f by (metis prod.collapse)
  show ?thesis using e 1 z 2 by blast
qed
end
